theory Spec2Isabelle
  imports Complex_Main "HOL-Library.Monad_Syntax" "HOL-Library.Multiset"
begin

section \<open>picasso/ml\_frameworks/model.py: the BaseModel contract\<close>

text \<open>
  A shallow embedding of \<^verbatim>\<open>BaseModel\<close> and \<^verbatim>\<open>generate_model\<close>.

  \<^item> A Python float is a finite value, given exactly as a rational number
    (every finite double is a dyadic rational), a negative zero, an infinity
    or not-a-number.
  \<^item> A Python exception is a value of \<open>exn\<close>; a call returns \<open>exn + 'r\<close>.
  \<^item> \<^verbatim>\<open>warnings.warn\<close> appends the message to a log that every method returns
    next to its outcome (the default filter: a warning is reported, never
    raised).
\<close>

subsection \<open>Exceptions, warnings, outcomes\<close>

datatype exn =
    AttributeError
  | TypeError
  | NotImplementedError
  | OtherError string

text \<open>
  \<open>AttributeError\<close> stands for every exception an \<^verbatim>\<open>except AttributeError\<close>
  clause catches, \<open>OtherError\<close> for any exception of another class.
\<close>

type_synonym 'r res = "string list \<times> (exn + 'r)"

subsection \<open>Floats\<close>

text \<open>
  \<open>Finite x\<close> is the float of value \<open>x\<close> (\<open>Finite 0\<close> the positive zero). The
  order is Python's \<^verbatim>\<open><\<close>: false whenever an operand is not-a-number, and
  the two zeros are equal.
\<close>

datatype pyfloat = Finite rat | NegZero | PosInf | NegInf | NaN

definition is_finite :: "pyfloat \<Rightarrow> bool" where
  "is_finite a = (case a of Finite x \<Rightarrow> True | NegZero \<Rightarrow> True | _ \<Rightarrow> False)"

text \<open>The value of a finite float.\<close>

definition float_value :: "pyfloat \<Rightarrow> rat" where
  "float_value a = (case a of Finite x \<Rightarrow> x | _ \<Rightarrow> 0)"

definition float_lt :: "pyfloat \<Rightarrow> pyfloat \<Rightarrow> bool" where
  "float_lt a b =
     (case a of
        NaN \<Rightarrow> False
      | PosInf \<Rightarrow> False
      | NegInf \<Rightarrow> b \<noteq> NaN \<and> b \<noteq> NegInf
      | _ \<Rightarrow>
          (case b of
             NaN \<Rightarrow> False
           | NegInf \<Rightarrow> False
           | PosInf \<Rightarrow> True
           | _ \<Rightarrow> float_value a < float_value b))"

subsection \<open>Text of numbers: \<^verbatim>\<open>str(i)\<close> and \<^verbatim>\<open>'{:.3f}'.format(x)\<close>\<close>

definition digit_char :: "nat \<Rightarrow> char" where
  "digit_char d = ''0123456789'' ! (d mod 10)"

text \<open>\<^verbatim>\<open>str(i)\<close> for an index \<open>i \<ge> 0\<close>: decimal digits, no leading zero.\<close>

function str_nat :: "nat \<Rightarrow> string" where
  "str_nat n = (if n < 10 then [digit_char n] else str_nat (n div 10) @ [digit_char (n mod 10)])"
  by pat_completeness auto
termination
  by (relation "measure (\<lambda>n. n)") auto

declare str_nat.simps [simp del]

text \<open>
  Rounding to the nearest integer, a tie going to the even neighbour: the
  rounding of a correctly rounded float formatter.
\<close>

definition round_half_even :: "rat \<Rightarrow> int" where
  "round_half_even x =
     (let f = \<lfloor>x\<rfloor>; d = x - of_int f
      in if d < 1/2 then f
         else if 1/2 < d then f + 1
         else if even f then f else f + 1)"

text \<open>
  \<^verbatim>\<open>'{:.3f}'.format(x)\<close> for a finite \<open>x\<close>: an optional minus sign, the integer
  digits, a point and exactly three fraction digits of the magnitude rounded
  to a multiple of 1/1000. The sign of a negative value stays when it rounds
  to zero.
\<close>

definition thousandths :: "rat \<Rightarrow> nat" where
  "thousandths x = nat (round_half_even (\<bar>x\<bar> * 1000))"

definition format3f :: "rat \<Rightarrow> string" where
  "format3f x =
     (let n = thousandths x
      in (if x < 0 then ''-'' else '''')
         @ str_nat (n div 1000) @ ''.''
         @ [digit_char (n div 100), digit_char (n div 10), digit_char n])"

text \<open>\<^verbatim>\<open>'{:.3f}'.format(a)\<close> for any float.\<close>

definition format_float :: "pyfloat \<Rightarrow> string" where
  "format_float a =
     (case a of
        Finite x \<Rightarrow> format3f x
      | NegZero \<Rightarrow> ''-0.000''
      | PosInf \<Rightarrow> ''inf''
      | NegInf \<Rightarrow> ''-inf''
      | NaN \<Rightarrow> ''nan'')"

subsection \<open>Built-in list operations\<close>

text \<open>
  \<^verbatim>\<open>list.sort\<close> as CPython runs it on fewer than 64 elements, with \<open>lt\<close> for
  the comparison \<^verbatim>\<open><\<close>: it measures the run the list starts with
  (non-descending, or strictly descending and then reversed) and puts the
  other elements into it one by one, each at the place a binary search finds.
  On a longer list CPython merges several such runs; the result is the same
  whenever \<^verbatim>\<open><\<close> orders the keys totally, that is when no key is not-a-number.
\<close>

fun count_asc :: "('e \<Rightarrow> 'e \<Rightarrow> bool) \<Rightarrow> 'e \<Rightarrow> 'e list \<Rightarrow> nat" where
  "count_asc lt prev [] = 0"
| "count_asc lt prev (x # xs) = (if lt x prev then 0 else Suc (count_asc lt x xs))"

fun count_desc :: "('e \<Rightarrow> 'e \<Rightarrow> bool) \<Rightarrow> 'e \<Rightarrow> 'e list \<Rightarrow> nat" where
  "count_desc lt prev [] = 0"
| "count_desc lt prev (x # xs) = (if lt x prev then Suc (count_desc lt x xs) else 0)"

text \<open>The length of the initial run, and whether it is descending.\<close>

definition count_run :: "('e \<Rightarrow> 'e \<Rightarrow> bool) \<Rightarrow> 'e list \<Rightarrow> nat \<times> bool" where
  "count_run lt xs =
     (case xs of
        [] \<Rightarrow> (0, False)
      | x # ys \<Rightarrow>
          (case ys of
             [] \<Rightarrow> (1, False)
           | y # zs \<Rightarrow>
               if lt y x then (2 + count_desc lt y zs, True)
               else (2 + count_asc lt y zs, False)))"

text \<open>
  The binary search of \<^verbatim>\<open>binarysort\<close>: the place of \<open>pivot\<close> among
  \<open>xs ! l, \<dots>, xs ! (r - 1)\<close>.
\<close>

function bisect :: "('e \<Rightarrow> 'e \<Rightarrow> bool) \<Rightarrow> 'e \<Rightarrow> 'e list \<Rightarrow> nat \<Rightarrow> nat \<Rightarrow> nat" where
  "bisect lt pivot xs l r =
     (if l < r
      then if lt pivot (xs ! (l + (r - l) div 2))
           then bisect lt pivot xs l (l + (r - l) div 2)
           else bisect lt pivot xs (Suc (l + (r - l) div 2)) r
      else l)"
  by pat_completeness auto
termination
  by (relation "measure (\<lambda>(lt, pivot, xs, l, r). r - l)") auto

declare bisect.simps [simp del]

definition insert_at :: "nat \<Rightarrow> 'e \<Rightarrow> 'e list \<Rightarrow> 'e list" where
  "insert_at l pivot xs = take l xs @ pivot # drop l xs"

fun binarysort :: "('e \<Rightarrow> 'e \<Rightarrow> bool) \<Rightarrow> 'e list \<Rightarrow> 'e list \<Rightarrow> 'e list" where
  "binarysort lt run [] = run"
| "binarysort lt run (pivot # rest) =
     binarysort lt (insert_at (bisect lt pivot run 0 (length run)) pivot run) rest"

definition list_sort :: "('e \<Rightarrow> 'e \<Rightarrow> bool) \<Rightarrow> 'e list \<Rightarrow> 'e list" where
  "list_sort lt xs =
     (if length xs < 2 then xs
      else case count_run lt xs of
             (n, descending) \<Rightarrow>
               binarysort lt (if descending then rev (take n xs) else take n xs) (drop n xs))"

text \<open>
  \<^verbatim>\<open>sorted(xs, key=f, reverse=r)\<close> for float keys: the keys are compared with
  \<^verbatim>\<open><\<close>; with \<^verbatim>\<open>reverse=True\<close> the list is reversed, sorted and reversed again.
\<close>

definition sorted_py :: "('e \<Rightarrow> pyfloat) \<Rightarrow> bool \<Rightarrow> 'e list \<Rightarrow> 'e list" where
  "sorted_py key reverse xs =
     (if reverse then rev (list_sort (\<lambda>a b. float_lt (key a) (key b)) (rev xs))
      else list_sort (\<lambda>a b. float_lt (key a) (key b)) xs)"

text \<open>\<^verbatim>\<open>xs[:k]\<close> for an integer \<open>k\<close>; a negative bound counts from the end.\<close>

definition slice_to :: "int \<Rightarrow> 'e list \<Rightarrow> 'e list" where
  "slice_to k xs =
     (if 0 \<le> k then take (nat k) xs else take (length xs - nat (- k)) xs)"

subsection \<open>The default decoding of \<^verbatim>\<open>decode_prob\<close>\<close>

text \<open>
  One entry \<^verbatim>\<open>{'index': i, 'name': str(i), 'prob': p}\<close>. The value under
  \<^verbatim>\<open>'prob'\<close> is a float while the entries are sorted and a string once it
  is formatted, hence the type parameter.
\<close>

record 'p entry =
  index :: nat
  name :: string
  prob :: 'p

type_synonym prob_array = "pyfloat list list"
type_synonym decoded = "string entry list list"

text \<open>The doubles that the literals \<^verbatim>\<open>0.1\<close>, \<^verbatim>\<open>0.7\<close> and \<^verbatim>\<open>0.2\<close> denote.\<close>

definition double_0_1 :: rat where
  "double_0_1 = 3602879701896397 / 2 ^ 55"

definition double_0_7 :: rat where
  "double_0_7 = 3152519739159347 / 2 ^ 52"

definition double_0_2 :: rat where
  "double_0_2 = 3602879701896397 / 2 ^ 54"

text \<open>The inner loop \<^verbatim>\<open>for i, prob in enumerate(row): entries.append(...)\<close>.\<close>

fun build_entries :: "nat \<Rightarrow> pyfloat list \<Rightarrow> pyfloat entry list \<Rightarrow> pyfloat entry list" where
  "build_entries i [] entries = entries"
| "build_entries i (p # row) entries =
     build_entries (Suc i) row (entries @ [\<lparr>index = i, name = str_nat i, prob = p\<rparr>])"

text \<open>The loop \<^verbatim>\<open>for entry in entries: entry['prob'] = '{:.3f}'.format(entry['prob'])\<close>.\<close>

fun format_entries :: "pyfloat entry list \<Rightarrow> string entry list" where
  "format_entries [] = []"
| "format_entries (e # es) =
     \<lparr>index = index e, name = name e, prob = format_float (prob e)\<rparr> # format_entries es"

text \<open>
  \<^verbatim>\<open>sorted(entries, key=itemgetter('prob'), reverse=True)[:self.top_probs]\<close> on
  the entries built from a row.
\<close>

definition ranked_entries :: "int \<Rightarrow> pyfloat list \<Rightarrow> pyfloat entry list" where
  "ranked_entries k row = slice_to k (sorted_py prob True (build_entries 0 row []))"

text \<open>The body of the loop over the rows, up to \<^verbatim>\<open>results.append(entries)\<close>.\<close>

definition decode_row :: "int \<Rightarrow> pyfloat list \<Rightarrow> string entry list" where
  "decode_row k row = format_entries (ranked_entries k row)"

fun decode_rows :: "int \<Rightarrow> prob_array \<Rightarrow> decoded \<Rightarrow> decoded" where
  "decode_rows k [] results = results"
| "decode_rows k (row # rows) results =
     decode_rows k rows (results @ [decode_row k row])"

definition default_decode :: "int \<Rightarrow> prob_array \<Rightarrow> decoded" where
  "default_decode k output_arr = decode_rows k output_arr []"

subsection \<open>Objects, attributes and callables\<close>

text \<open>
  The code sees a helper only through \<^verbatim>\<open>getattr\<close> and through a call. A
  callable found on a helper is given by what it does in the two call shapes
  the class uses: \<^verbatim>\<open>f(x)\<close> and \<^verbatim>\<open>f(output_arr, top=k)\<close>. Calling anything else
  raises \<^verbatim>\<open>TypeError\<close>. Raw, preprocessed and postprocessed data are values of
  one type \<open>'a\<close>, which the class never looks into; a decoder returns a result
  of the format the docstring of \<^verbatim>\<open>decode_prob\<close> gives. A helper is taken to
  compute its outcome and nothing else.
\<close>

datatype 'a member =
    Callable "'a \<Rightarrow> exn + 'a" "prob_array \<Rightarrow> int \<Rightarrow> exn + decoded"
  | NonCallable

text \<open>
  An attribute value: its text when it is a \<^verbatim>\<open>str\<close> (which is what makes it
  usable as an attribute name), the attributes \<^verbatim>\<open>getattr\<close> finds on it, and
  what calling the value itself does. No value of the model is a class or a
  dictionary.
\<close>

record 'a pyobj =
  str_value :: "string option"
  members :: "string \<rightharpoonup> 'a member"
  called :: "'a member"

text \<open>
  An instance: \<^verbatim>\<open>top_probs\<close>, an integer as documented, and the other
  attributes of the instance, which are those set from the keyword arguments.
\<close>

record 'a BaseModel =
  top_probs :: int
  attrs :: "string \<rightharpoonup> 'a pyobj"

type_synonym 'a kwargs = "(string \<times> 'a pyobj) list"

text \<open>
  \<^verbatim>\<open>setattr(self, key, value)\<close> on an instance of a plain class, for the names
  \<^verbatim>\<open>__init__\<close> passes (never \<^verbatim>\<open>top_probs\<close>). Three names are not ordinary
  attributes: \<^verbatim>\<open>__weakref__\<close> cannot be written (\<^verbatim>\<open>AttributeError\<close>),
  \<^verbatim>\<open>__class__\<close> accepts only a class and \<^verbatim>\<open>__dict__\<close> only a dictionary
  (\<^verbatim>\<open>TypeError\<close> for the values of this model). Every other name is stored.
\<close>

definition setattr :: "'a BaseModel \<Rightarrow> string \<Rightarrow> 'a pyobj \<Rightarrow> exn + 'a BaseModel" where
  "setattr self key v =
     (if key = ''__weakref__'' then Inl AttributeError
      else if key = ''__class__'' \<or> key = ''__dict__'' then Inl TypeError
      else Inr (self\<lparr>attrs := (attrs self)(key \<mapsto> v)\<rparr>))"

text \<open>The loop \<^verbatim>\<open>for key, value in kwargs.items(): setattr(self, key, value)\<close>.\<close>

fun set_items :: "'a kwargs \<Rightarrow> 'a BaseModel \<Rightarrow> exn + 'a BaseModel" where
  "set_items [] self = Inr self"
| "set_items ((key, v) # items) self =
     (case setattr self key v of Inl e \<Rightarrow> Inl e | Inr self' \<Rightarrow> set_items items self')"

text \<open>
  The call \<^verbatim>\<open>BaseModel(top_probs, **kwargs)\<close>, running
  \<^verbatim>\<open>__init__(self, top_probs=5, **kwargs)\<close>. The first argument is \<open>None\<close> when
  the caller leaves \<^verbatim>\<open>top_probs\<close> out. The names of the two parameters are
  not keys of \<^verbatim>\<open>kwargs\<close>: Python refuses a keyword \<^verbatim>\<open>self\<close> with
  \<^verbatim>\<open>TypeError\<close> before the body runs, and a keyword \<^verbatim>\<open>top_probs\<close> is this
  model's first argument.
\<close>

definition BaseModel_init :: "int option \<Rightarrow> 'a kwargs \<Rightarrow> exn + 'a BaseModel" where
  "BaseModel_init top_probs_arg kwargs =
     (if ''self'' \<in> set (map fst kwargs) \<or> ''top_probs'' \<in> set (map fst kwargs)
      then Inl TypeError
      else let self = \<lparr>top_probs = (case top_probs_arg of None \<Rightarrow> 5 | Some k \<Rightarrow> k),
                       attrs = Map.empty\<rparr>
           in if kwargs \<noteq> [] then set_items kwargs self else Inr self)"

text \<open>The instance \<^verbatim>\<open>BaseModel(top_probs=k)\<close>.\<close>

definition plain_model :: "int \<Rightarrow> 'a BaseModel" where
  "plain_model k = \<lparr>top_probs = k, attrs = Map.empty\<rparr>"

text \<open>Reading \<^verbatim>\<open>self.n\<close>.\<close>

definition self_attr :: "'a BaseModel \<Rightarrow> string \<Rightarrow> exn + 'a pyobj" where
  "self_attr self n =
     (case attrs self n of None \<Rightarrow> Inl AttributeError | Some v \<Rightarrow> Inr v)"

text \<open>\<^verbatim>\<open>getattr(obj, attr_name)\<close>: the name has to be a \<^verbatim>\<open>str\<close>.\<close>

definition getattr :: "'a pyobj \<Rightarrow> 'a pyobj \<Rightarrow> exn + 'a member" where
  "getattr obj attr_name =
     (case str_value attr_name of
        None \<Rightarrow> Inl TypeError
      | Some n \<Rightarrow> (case members obj n of None \<Rightarrow> Inl AttributeError | Some f \<Rightarrow> Inr f))"

text \<open>
  \<^verbatim>\<open>getattr(self.helper, self.helper_name)\<close>, its arguments evaluated left to
  right.
\<close>

definition delegate :: "'a BaseModel \<Rightarrow> string \<Rightarrow> string \<Rightarrow> exn + 'a member" where
  "delegate self helper helper_name =
     (case self_attr self helper of
        Inl e \<Rightarrow> Inl e
      | Inr obj \<Rightarrow>
          (case self_attr self helper_name of
             Inl e \<Rightarrow> Inl e
           | Inr attr_name \<Rightarrow> getattr obj attr_name))"

definition call1 :: "'a member \<Rightarrow> 'a \<Rightarrow> exn + 'a" where
  "call1 f x = (case f of Callable g h \<Rightarrow> g x | NonCallable \<Rightarrow> Inl TypeError)"

definition call_top :: "'a member \<Rightarrow> prob_array \<Rightarrow> int \<Rightarrow> exn + decoded" where
  "call_top f output_arr k =
     (case f of Callable g h \<Rightarrow> h output_arr k | NonCallable \<Rightarrow> Inl TypeError)"

subsection \<open>The methods of BaseModel\<close>

text \<open>
  Each definition is the body of the method of the class, run on the instance
  \<open>self\<close>; \<^verbatim>\<open>self.preprocessor\<close> and the other helper names are read from the
  attributes of the instance, the class having none of these names.
\<close>

definition load :: "'a BaseModel \<Rightarrow> string \<Rightarrow> 'a kwargs \<Rightarrow> unit res" where
  "load self data_dir kwargs = ([], Inl NotImplementedError)"


definition preprocess :: "'a BaseModel \<Rightarrow> 'a \<Rightarrow> 'a res" where
  "preprocess self raw_targets =
     (case (case delegate self ''preprocessor'' ''preprocessor_name'' of
              Inl e \<Rightarrow> Inl e
            | Inr f \<Rightarrow> call1 f raw_targets) of
        Inr r \<Rightarrow> ([], Inr r)
      | Inl e \<Rightarrow>
          if e = AttributeError
          then ([''Evaluating without preprocessor''], Inr raw_targets)
          else ([], Inl e))"

definition postprocess :: "'a BaseModel \<Rightarrow> 'a \<Rightarrow> 'a res" where
  "postprocess self output_arr =
     (case (case delegate self ''postprocessor'' ''postprocessor_name'' of
              Inl e \<Rightarrow> Inl e
            | Inr f \<Rightarrow> call1 f output_arr) of
        Inr r \<Rightarrow> ([], Inr r)
      | Inl e \<Rightarrow>
          if e = AttributeError
          then ([''Evaluating without postprocessor''], Inr output_arr)
          else ([], Inl e))"

definition decode_prob :: "'a BaseModel \<Rightarrow> prob_array \<Rightarrow> decoded res" where
  "decode_prob self output_arr =
     (case (case delegate self ''prob_decoder'' ''prob_decoder_name'' of
              Inl e \<Rightarrow> Inl e
            | Inr f \<Rightarrow> call_top f output_arr (top_probs self)) of
        Inr r \<Rightarrow> ([], Inr r)
      | Inl e \<Rightarrow>
          if e = AttributeError
          then ([''Evaluating without class decoder''],
                Inr (default_decode (top_probs self) output_arr))
          else ([], Inl e))"







subsection \<open>generate\_model\<close>

text \<open>
  What a class call can build: an instance of BaseModel or of a subclass, or
  any other object.
\<close>

datatype ('a, 'o) model_obj = ModelInstance "'a BaseModel" | OtherInstance 'o

definition isinstance_BaseModel :: "('a, 'o) model_obj \<Rightarrow> bool" where
  "isinstance_BaseModel model = (case model of ModelInstance m \<Rightarrow> True | OtherInstance x \<Rightarrow> False)"

text \<open>An attribute of the loaded module: something callable with \<^verbatim>\<open>**kwargs\<close>, or not.\<close>

datatype ('a, 'o) module_attr =
    ClassAttr "'a kwargs \<Rightarrow> exn + ('a, 'o) model_obj"
  | DataAttr

type_synonym ('a, 'o) pymodule = "string \<rightharpoonup> ('a, 'o) module_attr"

definition quote :: string where
  "quote = [CHR 0x27]"

text \<open>\<^verbatim>\<open>'%r' % BaseModel\<close>, the class living in \<^verbatim>\<open>picasso/ml_frameworks/model.py\<close>.\<close>

definition BaseModel_repr :: string where
  "BaseModel_repr = ''<class '' @ quote @ ''picasso.ml_frameworks.model.BaseModel'' @ quote @ ''>''"

definition not_instance_message :: "string \<Rightarrow> string \<Rightarrow> string" where
  "not_instance_message model_cls_name model_cls_path =
     ''Loaded model '' @ quote @ model_cls_name @ quote @ '' at '' @ quote @ model_cls_path @ quote
     @ '' is not an instance of '' @ BaseModel_repr"

text \<open>
  The three \<^verbatim>\<open>importlib\<close> lines read and run the file at \<^verbatim>\<open>model_cls_path\<close>;
  they are the parameter \<open>exec_module\<close>, which gives the module or the
  exception raised on the way.
\<close>

definition generate_model ::
  "(string \<Rightarrow> exn + ('a, 'o) pymodule) \<Rightarrow> string \<Rightarrow> string \<Rightarrow> 'a kwargs \<Rightarrow> ('a, 'o) model_obj res" where
  "generate_model exec_module model_cls_path model_cls_name kwargs =
     (case exec_module model_cls_path of
        Inl e \<Rightarrow> ([], Inl e)
      | Inr model_module \<Rightarrow>
          (case model_module model_cls_name of
             None \<Rightarrow> ([], Inl AttributeError)
           | Some DataAttr \<Rightarrow> ([], Inl TypeError)
           | Some (ClassAttr model_cls) \<Rightarrow>
               (case model_cls kwargs of
                  Inl e \<Rightarrow> ([], Inl e)
                | Inr model \<Rightarrow>
                    (if \<not> isinstance_BaseModel model
                     then [not_instance_message model_cls_name model_cls_path]
                     else [],
                     Inr model))))"

subsection \<open>Example objects\<close>

text \<open>
  A helper object with one method, \<^verbatim>\<open>run\<close>, that raises \<^verbatim>\<open>AttributeError\<close>
  however it is called; the string \<^verbatim>\<open>'run'\<close> as an attribute name; and an
  instance that uses the helper for all three roles.
\<close>

definition failing_callable :: "nat member" where
  "failing_callable = Callable (\<lambda>x. Inl AttributeError) (\<lambda>output_arr k. Inl AttributeError)"

definition failing_helper :: "nat pyobj" where
  "failing_helper =
     \<lparr>str_value = None, members = [''run'' \<mapsto> failing_callable], called = NonCallable\<rparr>"

definition run_name :: "nat pyobj" where
  "run_name = \<lparr>str_value = Some ''run'', members = Map.empty, called = NonCallable\<rparr>"

definition failing_model :: "nat BaseModel" where
  "failing_model =
     \<lparr>top_probs = 1,
      attrs = [''preprocessor'' \<mapsto> failing_helper, ''preprocessor_name'' \<mapsto> run_name,
               ''postprocessor'' \<mapsto> failing_helper, ''postprocessor_name'' \<mapsto> run_name,
               ''prob_decoder'' \<mapsto> failing_helper, ''prob_decoder_name'' \<mapsto> run_name]\<rparr>"



subsection \<open>Reading results back\<close>

text \<open>
  Python values, to compare what a method returns with what it was given: a
  probability array is a list of lists of floats, a decoded result a list of
  lists of dictionaries.
\<close>

datatype pyval =
    VInt int
  | VFloat pyfloat
  | VStr string
  | VList "pyval list"
  | VDict "(string \<times> pyval) list"

definition array_val :: "prob_array \<Rightarrow> pyval" where
  "array_val arr = VList (map (\<lambda>row. VList (map VFloat row)) arr)"

definition entry_val :: "string entry \<Rightarrow> pyval" where
  "entry_val e =
     VDict [(''index'', VInt (int (index e))), (''name'', VStr (name e)), (''prob'', VStr (prob e))]"

definition decoded_val :: "decoded \<Rightarrow> pyval" where
  "decoded_val d = VList (map (\<lambda>es. VList (map entry_val es)) d)"

text \<open>
  The number a decimal string denotes, read independently of the formatter:
  an optional minus sign, at least one digit, a point, at least one digit.
\<close>

definition is_digit :: "char \<Rightarrow> bool" where
  "is_digit c \<longleftrightarrow> c \<in> set ''0123456789''"

definition digit_value :: "char \<Rightarrow> nat" where
  "digit_value c = of_char c - 48"

definition nat_of_digits :: "string \<Rightarrow> nat" where
  "nat_of_digits ds = foldl (\<lambda>n c. 10 * n + digit_value c) 0 ds"

definition fraction_digits :: "string \<Rightarrow> string" where
  "fraction_digits s = tl (dropWhile (\<lambda>c. c \<noteq> CHR ''.'') s)"

definition decimal_value :: "string \<Rightarrow> rat option" where
  "decimal_value s =
     (let neg = (s \<noteq> [] \<and> hd s = CHR ''-'');
          body = (if neg then tl s else s);
          ip = takeWhile (\<lambda>c. c \<noteq> CHR ''.'') body;
          fp = fraction_digits body
      in if ip \<noteq> [] \<and> list_all is_digit ip \<and> fp \<noteq> [] \<and> list_all is_digit fp
            \<and> body = ip @ ''.'' @ fp
         then Some ((if neg then - 1 else 1)
                    * (of_nat (nat_of_digits ip) + of_nat (nat_of_digits fp) / 10 ^ length fp))
         else None)"

subsection \<open>The default decoding on a store\<close>

text \<open>
  The same loop with Python's objects made explicit, to say what it writes.
  A store is a list of objects, an address an index into it; allocation appends.
  Lists and dictionaries are objects, held by reference; floats, integers and
  strings are immutable and stand for themselves. \<open>None\<close> means that the store
  does not hold the objects the code expects (a list of lists of floats): such
  inputs are outside this model.
\<close>

datatype hval = HFloat pyfloat | HInt int | HStr string | HRef nat

datatype hobj = HList "hval list" | HDict "(string \<times> hval) list"

type_synonym store = "hobj list"

definition alloc :: "store \<Rightarrow> hobj \<Rightarrow> store \<times> nat" where
  "alloc h ob = (h @ [ob], length h)"

definition list_at :: "store \<Rightarrow> nat \<Rightarrow> hval list option" where
  "list_at h a =
     (if a < length h then (case h ! a of HList vs \<Rightarrow> Some vs | HDict kvs \<Rightarrow> None) else None)"

definition dict_at :: "store \<Rightarrow> nat \<Rightarrow> (string \<times> hval) list option" where
  "dict_at h a =
     (if a < length h then (case h ! a of HDict kvs \<Rightarrow> Some kvs | HList vs \<Rightarrow> None) else None)"

text \<open>\<^verbatim>\<open>xs.append(v)\<close> on the list at address \<open>a\<close>.\<close>

definition list_append :: "store \<Rightarrow> nat \<Rightarrow> hval \<Rightarrow> store option" where
  "list_append h a v = do { vs \<leftarrow> list_at h a; Some (h[a := HList (vs @ [v])]) }"

text \<open>\<^verbatim>\<open>d[key] = v\<close>: an existing key keeps its place.\<close>

fun set_item :: "(string \<times> hval) list \<Rightarrow> string \<Rightarrow> hval \<Rightarrow> (string \<times> hval) list" where
  "set_item [] key v = [(key, v)]"
| "set_item ((key', v') # kvs) key v =
     (if key' = key then (key, v) # kvs else (key', v') # set_item kvs key v)"

definition dict_set :: "store \<Rightarrow> nat \<Rightarrow> string \<Rightarrow> hval \<Rightarrow> store option" where
  "dict_set h a key v = do { kvs \<leftarrow> dict_at h a; Some (h[a := HDict (set_item kvs key v)]) }"

text \<open>\<^verbatim>\<open>entry[key]\<close> where a float is expected (the sort key, the value to format).\<close>

definition float_item :: "store \<Rightarrow> hval \<Rightarrow> string \<Rightarrow> pyfloat option" where
  "float_item h v key =
     (case v of
        HRef d \<Rightarrow> do { kvs \<leftarrow> dict_at h d;
                       (case map_of kvs key of Some (HFloat p) \<Rightarrow> Some p | _ \<Rightarrow> None) }
      | _ \<Rightarrow> None)"

text \<open>The dictionary literal \<^verbatim>\<open>{'index': i, 'name': str(i), 'prob': prob}\<close>.\<close>

definition entry_dict :: "nat \<Rightarrow> hval \<Rightarrow> hobj" where
  "entry_dict i p = HDict [(''index'', HInt (int i)), (''name'', HStr (str_nat i)), (''prob'', p)]"

fun build_entries_store :: "store \<Rightarrow> nat \<Rightarrow> nat \<Rightarrow> hval list \<Rightarrow> store option" where
  "build_entries_store h entries i [] = Some h"
| "build_entries_store h entries i (p # row) =
     (case alloc h (entry_dict i p) of
        (h1, d) \<Rightarrow> do { h2 \<leftarrow> list_append h1 entries (HRef d);
                         build_entries_store h2 entries (Suc i) row })"

text \<open>The sort keys \<^verbatim>\<open>itemgetter('prob')\<close> reads, each next to its entry.\<close>

fun keyed :: "store \<Rightarrow> hval list \<Rightarrow> (pyfloat \<times> hval) list option" where
  "keyed h [] = Some []"
| "keyed h (v # vs) = do { p \<leftarrow> float_item h v ''prob''; kvs \<leftarrow> keyed h vs; Some ((p, v) # kvs) }"

text \<open>\<^verbatim>\<open>sorted(...)\<close> and the slice each build a new list of the same entries.\<close>

definition sorted_store :: "store \<Rightarrow> nat \<Rightarrow> (store \<times> nat) option" where
  "sorted_store h entries =
     do { vs \<leftarrow> list_at h entries;
          kvs \<leftarrow> keyed h vs;
          Some (alloc h (HList (map snd (sorted_py fst True kvs)))) }"

definition slice_store :: "int \<Rightarrow> store \<Rightarrow> nat \<Rightarrow> (store \<times> nat) option" where
  "slice_store k h a = do { vs \<leftarrow> list_at h a; Some (alloc h (HList (slice_to k vs))) }"

text \<open>The loop \<^verbatim>\<open>for entry in entries: entry['prob'] = '{:.3f}'.format(entry['prob'])\<close>.\<close>

fun format_entries_store :: "store \<Rightarrow> hval list \<Rightarrow> store option" where
  "format_entries_store h [] = Some h"
| "format_entries_store h (v # vs) =
     do { p \<leftarrow> float_item h v ''prob'';
          h1 \<leftarrow> (case v of HRef d \<Rightarrow> dict_set h d ''prob'' (HStr (format_float p)) | _ \<Rightarrow> None);
          format_entries_store h1 vs }"

text \<open>The body of the loop over the rows; \<open>row\<close> is what the row's list holds.\<close>

definition decode_row_store :: "int \<Rightarrow> store \<Rightarrow> nat \<Rightarrow> hval list \<Rightarrow> store option" where
  "decode_row_store k h results row =
     (case alloc h (HList []) of
        (h1, entries) \<Rightarrow>
          do { h2 \<leftarrow> build_entries_store h1 entries 0 row;
               (h3, ranked) \<leftarrow> sorted_store h2 entries;
               (h4, entries') \<leftarrow> slice_store k h3 ranked;
               vs \<leftarrow> list_at h4 entries';
               h5 \<leftarrow> format_entries_store h4 vs;
               list_append h5 results (HRef entries') })"

fun decode_rows_store :: "int \<Rightarrow> store \<Rightarrow> nat \<Rightarrow> hval list \<Rightarrow> store option" where
  "decode_rows_store k h results [] = Some h"
| "decode_rows_store k h results (r # rows) =
     do { row \<leftarrow> (case r of HRef a \<Rightarrow> list_at h a | _ \<Rightarrow> None);
          h' \<leftarrow> decode_row_store k h results row;
          decode_rows_store k h' results rows }"

text \<open>
  The default decoding of the array at address \<open>output_arr\<close>: the new store and
  the address of \<^verbatim>\<open>results\<close>.
\<close>

definition decode_prob_store :: "int \<Rightarrow> store \<Rightarrow> nat \<Rightarrow> (store \<times> nat) option" where
  "decode_prob_store k h output_arr =
     (case alloc h (HList []) of
        (h1, results) \<Rightarrow>
          do { rows \<leftarrow> list_at h1 output_arr;
               h' \<leftarrow> decode_rows_store k h1 results rows;
               Some (h', results) })"

text \<open>
  The store holds the probability array \<open>arr\<close> at address \<open>a\<close>: a list of
  references \<open>ras\<close> to the lists of floats that are its rows.
\<close>

definition array_at :: "store \<Rightarrow> nat \<Rightarrow> nat list \<Rightarrow> prob_array \<Rightarrow> bool" where
  "array_at h a ras arr \<longleftrightarrow>
     a < length h \<and> h ! a = HList (map HRef ras)
     \<and> list_all2 (\<lambda>r row. r < length h \<and> h ! r = HList (map HFloat row)) ras arr"

text \<open>
  Reading a decoded result from the store, accepting only objects at addresses
  from \<open>n\<close> on: \<open>Some d\<close> says that the result is \<open>d\<close> and that its list, the
  lists of its rows and the dictionaries of its entries all live there.
\<close>

definition read_entry :: "nat \<Rightarrow> store \<Rightarrow> hval \<Rightarrow> string entry option" where
  "read_entry n h v =
     (case v of
        HRef d \<Rightarrow>
          (case dict_at h d of
             Some [(k1, HInt i), (k2, HStr s), (k3, HStr p)] \<Rightarrow>
               if n \<le> d \<and> k1 = ''index'' \<and> k2 = ''name'' \<and> k3 = ''prob'' \<and> 0 \<le> i
               then Some \<lparr>index = nat i, name = s, prob = p\<rparr> else None
           | _ \<Rightarrow> None)
      | _ \<Rightarrow> None)"

definition read_row :: "nat \<Rightarrow> store \<Rightarrow> hval \<Rightarrow> string entry list option" where
  "read_row n h v =
     (case v of
        HRef a \<Rightarrow> if n \<le> a then do { vs \<leftarrow> list_at h a; those (map (read_entry n h) vs) } else None
      | _ \<Rightarrow> None)"

definition read_decoded :: "nat \<Rightarrow> store \<Rightarrow> nat \<Rightarrow> decoded option" where
  "read_decoded n h r =
     (if n \<le> r then do { rs \<leftarrow> list_at h r; those (map (read_row n h) rs) } else None)"

text \<open>
  What one call allocates. For a row whose first new address is \<open>l\<close>: the list
  of all its entries, the entries (formatted when they are among the retained
  ones), the sorted list and the retained slice. The indices retained are the
  slice of the indices sorted by probability.
\<close>

definition ranked_indices :: "int \<Rightarrow> pyfloat list \<Rightarrow> nat list" where
  "ranked_indices k row = slice_to k (sorted_py (\<lambda>j. row ! j) True [0..<length row])"

definition row_cells :: "nat \<Rightarrow> int \<Rightarrow> pyfloat list \<Rightarrow> hobj list" where
  "row_cells l k row =
     HList (map (\<lambda>j. HRef (Suc l + j)) [0..<length row])
     # map (\<lambda>j. entry_dict j (if j \<in> set (ranked_indices k row)
                                then HStr (format_float (row ! j)) else HFloat (row ! j)))
         [0..<length row]
     @ [HList (map (\<lambda>j. HRef (Suc l + j)) (sorted_py (\<lambda>j. row ! j) True [0..<length row])),
        HList (map (\<lambda>j. HRef (Suc l + j)) (ranked_indices k row))]"

fun all_cells :: "nat \<Rightarrow> int \<Rightarrow> prob_array \<Rightarrow> hobj list" where
  "all_cells l k [] = []"
| "all_cells l k (row # rows) = row_cells l k row @ all_cells (l + length row + 3) k rows"

fun new_refs :: "nat \<Rightarrow> prob_array \<Rightarrow> hval list" where
  "new_refs l [] = []"
| "new_refs l (row # rows) = HRef (l + length row + 2) # new_refs (l + length row + 3) rows"

text \<open>
  A store with the array \<^verbatim>\<open>[r0, r1, r0]\<close> at address 2, its first and third row
  being the same list \<^verbatim>\<open>r0 = [0.5, 0.25, 0.5]\<close> and \<^verbatim>\<open>r1 = [1.0]\<close>.
\<close>

definition example_store :: store where
  "example_store =
     [HList [HFloat (Finite (1/2)), HFloat (Finite (1/4)), HFloat (Finite (1/2))],
      HList [HFloat (Finite 1)],
      HList [HRef 0, HRef 1, HRef 0]]"

section \<open>Properties\<close>

subsection \<open>The sort\<close>

lemma count_asc_le: "count_asc lt prev xs \<le> length xs"
  by (induction xs arbitrary: prev) simp_all

lemma count_desc_le: "count_desc lt prev xs \<le> length xs"
  by (induction xs arbitrary: prev) simp_all


lemma mset_insert_at: "mset (insert_at l pivot xs) = add_mset pivot (mset xs)"
proof -
  have "mset (take l xs) + mset (drop l xs) = mset xs"
    by (metis append_take_drop_id mset_append)
  then show ?thesis by (simp add: insert_at_def)
qed

lemma mset_binarysort: "mset (binarysort lt run rest) = mset run + mset rest"
  by (induction rest arbitrary: run) (simp_all add: mset_insert_at)

lemma mset_list_sort: "mset (list_sort lt xs) = mset xs"
proof (cases "length xs < 2")
  case True
  then show ?thesis by (simp add: list_sort_def)
next
  case False
  obtain n d where c: "count_run lt xs = (n, d)" by (cases "count_run lt xs")
  have "mset (take n xs) + mset (drop n xs) = mset xs"
    by (metis append_take_drop_id mset_append)
  then show ?thesis using False c by (simp add: list_sort_def mset_binarysort)
qed

lemma mset_sorted_py: "mset (sorted_py key r xs) = mset xs"
  by (simp add: sorted_py_def mset_list_sort)

lemma length_sorted_py: "length (sorted_py key r xs) = length xs"
  using mset_sorted_py [of key r xs] by (metis size_mset)

lemma set_sorted_py: "set (sorted_py key r xs) = set xs"
  using mset_sorted_py [of key r xs] by (metis set_mset_mset)

lemma distinct_sorted_py: "distinct (sorted_py key r xs) = distinct xs"
  using mset_sorted_py [of key r xs] by (metis mset_eq_imp_distinct_iff)

lemma count_asc_map: "count_asc lt (g prev) (map g xs) = count_asc (\<lambda>a b. lt (g a) (g b)) prev xs"
  by (induction xs arbitrary: prev) simp_all

lemma count_desc_map: "count_desc lt (g prev) (map g xs) = count_desc (\<lambda>a b. lt (g a) (g b)) prev xs"
  by (induction xs arbitrary: prev) simp_all

lemma count_run_map: "count_run lt (map g xs) = count_run (\<lambda>a b. lt (g a) (g b)) xs"
proof (cases xs)
  case Nil
  then show ?thesis by (simp add: count_run_def)
next
  case (Cons x ys)
  then show ?thesis
    by (cases ys) (simp_all add: count_run_def count_asc_map count_desc_map)
qed

lemma bisect_map:
  "r \<le> length xs \<Longrightarrow>
   bisect lt (g pivot) (map g xs) l r = bisect (\<lambda>a b. lt (g a) (g b)) pivot xs l r"
proof (induction "r - l" arbitrary: l r rule: less_induct)
  case less
  show ?case
  proof (cases "l < r")
    case False
    then show ?thesis by (simp add: bisect.simps [of _ _ _ l r])
  next
    case True
    let ?p = "l + (r - l) div 2"
    have p: "l \<le> ?p" "?p < r" using True by auto
    then have nth: "map g xs ! ?p = g (xs ! ?p)" using less.prems by simp
    have a: "bisect lt (g pivot) (map g xs) l ?p = bisect (\<lambda>a b. lt (g a) (g b)) pivot xs l ?p"
      using p less.prems by (intro less.hyps) auto
    have b: "bisect lt (g pivot) (map g xs) (Suc ?p) r = bisect (\<lambda>a b. lt (g a) (g b)) pivot xs (Suc ?p) r"
      using p less.prems by (intro less.hyps) auto
    show ?thesis
      using True nth a b
      by (subst bisect.simps, subst (2) bisect.simps) simp
  qed
qed

lemma insert_at_map: "insert_at l (g pivot) (map g xs) = map g (insert_at l pivot xs)"
  by (simp add: insert_at_def take_map drop_map)

lemma binarysort_map:
  "binarysort lt (map g run) (map g rest) = map g (binarysort (\<lambda>a b. lt (g a) (g b)) run rest)"
proof (induction rest arbitrary: run)
  case Nil
  then show ?case by simp
next
  case (Cons pivot rest)
  have "bisect lt (g pivot) (map g run) 0 (length run)
      = bisect (\<lambda>a b. lt (g a) (g b)) pivot run 0 (length run)"
    by (rule bisect_map) simp
  then show ?case using Cons.IH by (simp add: insert_at_map)
qed

lemma list_sort_map: "list_sort lt (map g xs) = map g (list_sort (\<lambda>a b. lt (g a) (g b)) xs)"
proof (cases "length xs < 2")
  case True
  then show ?thesis by (simp add: list_sort_def)
next
  case False
  obtain n d where c: "count_run (\<lambda>a b. lt (g a) (g b)) xs = (n, d)"
    by (cases "count_run (\<lambda>a b. lt (g a) (g b)) xs")
  have "binarysort lt (map g (if d then rev (take n xs) else take n xs)) (map g (drop n xs))
      = map g (binarysort (\<lambda>a b. lt (g a) (g b)) (if d then rev (take n xs) else take n xs) (drop n xs))"
    by (rule binarysort_map)
  then show ?thesis
    using False c by (cases d) (simp_all add: list_sort_def count_run_map take_map drop_map rev_map)
qed

lemma sorted_py_map: "sorted_py key r (map g xs) = map g (sorted_py (\<lambda>x. key (g x)) r xs)"
  by (simp add: sorted_py_def list_sort_map rev_map)











subsection \<open>Construction\<close>

lemma setattr_Inr:
  "setattr m key v = Inr m' \<Longrightarrow> m' = m\<lparr>attrs := (attrs m)(key \<mapsto> v)\<rparr>"
  by (auto simp: setattr_def split: if_splits)

lemma set_items_Inr:
  "set_items kw m = Inr m' \<Longrightarrow>
     top_probs m' = top_probs m \<and> (k \<notin> fst ` set kw \<longrightarrow> attrs m' k = attrs m k)"
proof (induction kw arbitrary: m)
  case Nil
  then show ?case by simp
next
  case (Cons a kw)
  obtain key v where a: "a = (key, v)" by (cases a)
  from Cons.prems a obtain m1 where s: "setattr m key v = Inr m1" and r: "set_items kw m1 = Inr m'"
    by (auto split: sum.splits)
  from Cons.IH [OF r] setattr_Inr [OF s] show ?case by (auto simp: a)
qed

lemma set_items_ordinary:
  assumes "\<forall>key\<in>fst ` set kw. key \<notin> {''__class__'', ''__dict__'', ''__weakref__''}"
    and "distinct (map fst kw)"
  shows "\<exists>m'. set_items kw m = Inr m' \<and> (\<forall>(key, v)\<in>set kw. attrs m' key = Some v)"
  using assms
proof (induction kw arbitrary: m)
  case Nil
  then show ?case by simp
next
  case (Cons a kw)
  obtain key v where a: "a = (key, v)" by (cases a)
  let ?m1 = "m\<lparr>attrs := (attrs m)(key \<mapsto> v)\<rparr>"
  have s: "setattr m key v = Inr ?m1" using Cons.prems(1) a by (simp add: setattr_def)
  from Cons.prems a obtain m' where r: "set_items kw ?m1 = Inr m'"
    and rest: "\<forall>(key, v)\<in>set kw. attrs m' key = Some v"
    using Cons.IH [of ?m1] by auto
  have "key \<notin> fst ` set kw" using Cons.prems(2) a by auto
  then have "attrs m' key = Some v" using set_items_Inr [OF r, of key] by simp
  then show ?case using s r rest a by auto
qed

lemma init_Inr:
  assumes "BaseModel_init tp kw = Inr m"
  shows "top_probs m = (case tp of None \<Rightarrow> 5 | Some k \<Rightarrow> k)"
    and "k \<notin> fst ` set kw \<Longrightarrow> attrs m k = None"
proof -
  let ?m0 = "\<lparr>top_probs = (case tp of None \<Rightarrow> 5 | Some k \<Rightarrow> k), attrs = Map.empty\<rparr> :: 'a BaseModel"
  have "set_items kw ?m0 = Inr m"
    using assms by (cases kw) (auto simp: BaseModel_init_def Let_def split: if_splits)
  from set_items_Inr [OF this, of k]
  show "top_probs m = (case tp of None \<Rightarrow> 5 | Some k \<Rightarrow> k)"
    and "k \<notin> fst ` set kw \<Longrightarrow> attrs m k = None"
    by simp_all
qed

lemma init_plain: "BaseModel_init tp [] = Inr (plain_model (case tp of None \<Rightarrow> 5 | Some k \<Rightarrow> k))"
  by (simp add: BaseModel_init_def plain_model_def)

text \<open>
  Claim C7, as the code has it. When the keyword arguments (a dictionary: its
  keys are distinct) use none of the names \<^verbatim>\<open>self\<close>, \<^verbatim>\<open>top_probs\<close>,
  \<^verbatim>\<open>__class__\<close>, \<^verbatim>\<open>__dict__\<close> and \<^verbatim>\<open>__weakref__\<close>, the constructor raises
  nothing and returns an instance on which every key reads back as the value
  given for it; \<^verbatim>\<open>top_probs\<close> is 5 when the caller leaves it out, and the
  argument otherwise.
\<close>

theorem init_sets_attributes:
  assumes "distinct (map fst kwargs)"
    and "\<forall>key\<in>set (map fst kwargs).
           key \<notin> {''self'', ''top_probs'', ''__class__'', ''__dict__'', ''__weakref__''}"
  shows "\<exists>m. BaseModel_init tp kwargs = Inr m
       \<and> (\<forall>(key, v)\<in>set kwargs. self_attr m key = Inr v)
       \<and> top_probs m = (case tp of None \<Rightarrow> 5 | Some n \<Rightarrow> n)"
proof -
  let ?m0 = "\<lparr>top_probs = (case tp of None \<Rightarrow> 5 | Some k \<Rightarrow> k), attrs = Map.empty\<rparr> :: 'a BaseModel"
  have sp: "\<forall>key\<in>fst ` set kwargs. key \<notin> {''__class__'', ''__dict__'', ''__weakref__''}"
    using assms(2) by auto
  from set_items_ordinary [OF sp assms(1), of ?m0]
  obtain m where m: "set_items kwargs ?m0 = Inr m" "\<forall>(key, v)\<in>set kwargs. attrs m key = Some v"
    by blast
  have "BaseModel_init tp kwargs = Inr m"
    using assms(2) m(1) by (cases kwargs) (auto simp: BaseModel_init_def Let_def)
  moreover from this have "top_probs m = (case tp of None \<Rightarrow> 5 | Some n \<Rightarrow> n)"
    by (rule init_Inr)
  moreover have "\<forall>(key, v)\<in>set kwargs. self_attr m key = Inr v"
    using m(2) by (auto simp: self_attr_def)
  ultimately show ?thesis by blast
qed

theorem init_sets_attributes_witness:
  "distinct (map fst [(''data_dir'', run_name), (''zzz'', failing_helper)])
   \<and> (\<exists>m. BaseModel_init None [(''data_dir'', run_name), (''zzz'', failing_helper)] = Inr m
        \<and> self_attr m ''data_dir'' = Inr run_name
        \<and> self_attr m ''zzz'' = Inr failing_helper
        \<and> top_probs m = 5)"
proof -
  have d: "distinct (map fst [(''data_dir'', run_name), (''zzz'', failing_helper)])" by simp
  have o: "\<forall>key\<in>set (map fst [(''data_dir'', run_name), (''zzz'', failing_helper)]).
      key \<notin> {''self'', ''top_probs'', ''__class__'', ''__dict__'', ''__weakref__''}"
    by simp
  from init_sets_attributes [OF d o, of None] show ?thesis using d by auto
qed

text \<open>
  Claim C7 as stated fails: \<^verbatim>\<open>BaseModel(__class__='run')\<close> raises
  \<^verbatim>\<open>TypeError\<close>, since \<^verbatim>\<open>setattr\<close> accepts only a class under that name.
\<close>

theorem init_special_key_counterexample:
  "BaseModel_init None [(''__class__'', run_name)] = Inl TypeError"
  by (simp add: BaseModel_init_def setattr_def)

subsection \<open>The three delegating methods\<close>

lemma delegate_absent:
  "attrs m h = None \<or> attrs m hn = None \<Longrightarrow> delegate m h hn = Inl AttributeError"
  by (auto simp: delegate_def self_attr_def split: option.splits)

lemma decode_prob_fallback:
  "attrs m ''prob_decoder'' = None \<or> attrs m ''prob_decoder_name'' = None \<Longrightarrow>
   decode_prob m arr =
     ([''Evaluating without class decoder''], Inr (default_decode (top_probs m) arr))"
  by (simp add: decode_prob_def delegate_absent)

text \<open>
  Claim C1, as the code has it. With no helper configured (the helper or its
  name is not an attribute of the instance), \<^verbatim>\<open>preprocess\<close> and
  \<^verbatim>\<open>postprocess\<close> return their input unchanged and \<^verbatim>\<open>decode_prob\<close> returns
  the default decoding of its input, each with its warning and without
  raising.
\<close>

theorem no_delegate_fallback:
  "(attrs m ''preprocessor'' = None \<or> attrs m ''preprocessor_name'' = None
      \<longrightarrow> preprocess m x = ([''Evaluating without preprocessor''], Inr x))
   \<and> (attrs m ''postprocessor'' = None \<or> attrs m ''postprocessor_name'' = None
      \<longrightarrow> postprocess m y = ([''Evaluating without postprocessor''], Inr y))
   \<and> (attrs m ''prob_decoder'' = None \<or> attrs m ''prob_decoder_name'' = None
      \<longrightarrow> decode_prob m arr =
            ([''Evaluating without class decoder''], Inr (default_decode (top_probs m) arr)))"
  by (simp add: preprocess_def postprocess_def decode_prob_def delegate_absent)

theorem no_delegate_fallback_witness:
  "BaseModel_init None [] = Inr (plain_model 5 :: nat BaseModel)
   \<and> attrs (plain_model 5 :: nat BaseModel) ''preprocessor'' = None
   \<and> attrs (plain_model 5 :: nat BaseModel) ''postprocessor'' = None
   \<and> attrs (plain_model 5 :: nat BaseModel) ''prob_decoder'' = None
   \<and> preprocess (plain_model 5) (7::nat) = ([''Evaluating without preprocessor''], Inr 7)
   \<and> postprocess (plain_model 5) (8::nat) = ([''Evaluating without postprocessor''], Inr 8)
   \<and> decode_prob (plain_model 5 :: nat BaseModel) [[Finite (1/2)]]
       = ([''Evaluating without class decoder''], Inr (default_decode 5 [[Finite (1/2)]]))"
  using no_delegate_fallback [of "plain_model 5 :: nat BaseModel" 7 8 "[[Finite (1/2)]]"]
  by (simp add: plain_model_def BaseModel_init_def)

text \<open>
  Claim C1 as stated fails for \<^verbatim>\<open>decode_prob\<close>: on \<^verbatim>\<open>[[0.5]]\<close> an instance with
  no decoder returns a list holding a list of one dictionary, which is not the
  list of lists of floats it was given.
\<close>

theorem decode_prob_identity_counterexample:
  "decode_prob (plain_model 5 :: unit BaseModel) [[Finite (1/2)]]
     = ([''Evaluating without class decoder''],
        Inr [[\<lparr>index = 0, name = ''0'', prob = ''0.500''\<rparr>]])
   \<and> decoded_val [[\<lparr>index = 0, name = ''0'', prob = ''0.500''\<rparr>]]
       \<noteq> array_val [[Finite (1/2)]]"
  by code_simp

text \<open>
  Claim C9. When the helper is found and the call itself raises
  \<^verbatim>\<open>AttributeError\<close>, the method catches it: it gives the same warning and the
  same fallback result as when no helper is configured, and the error does not
  reach the caller.
\<close>

theorem delegate_AttributeError_caught:
  "(delegate m ''preprocessor'' ''preprocessor_name'' = Inr f
      \<and> call1 f x = Inl AttributeError
      \<longrightarrow> preprocess m x = ([''Evaluating without preprocessor''], Inr x))
   \<and> (delegate m ''postprocessor'' ''postprocessor_name'' = Inr g
      \<and> call1 g y = Inl AttributeError
      \<longrightarrow> postprocess m y = ([''Evaluating without postprocessor''], Inr y))
   \<and> (delegate m ''prob_decoder'' ''prob_decoder_name'' = Inr h
      \<and> call_top h arr (top_probs m) = Inl AttributeError
      \<longrightarrow> decode_prob m arr =
            ([''Evaluating without class decoder''], Inr (default_decode (top_probs m) arr)))"
  by (simp add: preprocess_def postprocess_def decode_prob_def)

theorem delegate_AttributeError_caught_witness:
  "BaseModel_init (Some 1)
       [(''preprocessor'', failing_helper), (''preprocessor_name'', run_name),
        (''postprocessor'', failing_helper), (''postprocessor_name'', run_name),
        (''prob_decoder'', failing_helper), (''prob_decoder_name'', run_name)]
     = Inr failing_model
   \<and> delegate failing_model ''preprocessor'' ''preprocessor_name'' = Inr failing_callable
   \<and> call1 failing_callable 3 = Inl AttributeError
   \<and> preprocess failing_model 3 = ([''Evaluating without preprocessor''], Inr 3)
   \<and> delegate failing_model ''postprocessor'' ''postprocessor_name'' = Inr failing_callable
   \<and> call1 failing_callable 4 = Inl AttributeError
   \<and> postprocess failing_model 4 = ([''Evaluating without postprocessor''], Inr 4)
   \<and> delegate failing_model ''prob_decoder'' ''prob_decoder_name'' = Inr failing_callable
   \<and> call_top failing_callable [[Finite (1/4), Finite (3/4)]] (top_probs failing_model)
       = Inl AttributeError
   \<and> decode_prob failing_model [[Finite (1/4), Finite (3/4)]]
       = ([''Evaluating without class decoder''],
          Inr (default_decode 1 [[Finite (1/4), Finite (3/4)]]))"
proof -
  have i: "BaseModel_init (Some 1)
       [(''preprocessor'', failing_helper), (''preprocessor_name'', run_name),
        (''postprocessor'', failing_helper), (''postprocessor_name'', run_name),
        (''prob_decoder'', failing_helper), (''prob_decoder_name'', run_name)]
     = Inr failing_model"
    by (simp add: BaseModel_init_def setattr_def failing_model_def)
  have d: "delegate failing_model ''preprocessor'' ''preprocessor_name'' = Inr failing_callable"
    "delegate failing_model ''postprocessor'' ''postprocessor_name'' = Inr failing_callable"
    "delegate failing_model ''prob_decoder'' ''prob_decoder_name'' = Inr failing_callable"
    by (simp_all add: delegate_def self_attr_def getattr_def
        failing_model_def failing_helper_def run_name_def)
  have t: "top_probs failing_model = 1"
    by (simp add: failing_model_def)
  have c: "call1 failing_callable z = Inl AttributeError"
    "call_top failing_callable a k = Inl AttributeError" for z a k
    by (simp_all add: call1_def call_top_def failing_callable_def)
  show ?thesis
    using delegate_AttributeError_caught
      [of failing_model failing_callable 3 failing_callable 4 failing_callable
          "[[Finite (1/4), Finite (3/4)]]"]
      i d t c
    by simp
qed

subsection \<open>predict\<close>



subsection \<open>generate\_model\<close>

text \<open>
  Claim C8. When the file loads, the module has the named class and the class
  call returns an object, \<^verbatim>\<open>generate_model\<close> returns that object whether or
  not it is an instance of BaseModel. When it is not, the one warning emitted
  names the class and the path; nothing is raised.
\<close>

theorem generate_model_returns_instance:
  assumes "exec_module model_cls_path = Inr model_module"
    and "model_module model_cls_name = Some (ClassAttr model_cls)"
    and "model_cls kwargs = Inr model"
  shows "generate_model exec_module model_cls_path model_cls_name kwargs =
     (if isinstance_BaseModel model then []
      else [''Loaded model '' @ quote @ model_cls_name @ quote @ '' at '' @ quote
            @ model_cls_path @ quote @ '' is not an instance of '' @ BaseModel_repr],
      Inr model)"
  using assms by (simp add: generate_model_def not_instance_message_def)

theorem generate_model_returns_instance_witness:
  "(\<lambda>p. Inr [''Thing'' \<mapsto> ClassAttr (\<lambda>kw. Inr (OtherInstance (0::nat)))]) ''m.py''
     = (Inr [''Thing'' \<mapsto> ClassAttr (\<lambda>kw. Inr (OtherInstance (0::nat)))]
          :: exn + (unit, nat) pymodule)
   \<and> generate_model
        (\<lambda>p. Inr [''Thing'' \<mapsto> ClassAttr (\<lambda>kw. Inr (OtherInstance (0::nat)))])
        ''m.py'' ''Thing'' ([] :: unit kwargs)
     = ([''Loaded model '' @ quote @ ''Thing'' @ quote @ '' at '' @ quote @ ''m.py'' @ quote
         @ '' is not an instance of '' @ BaseModel_repr],
        Inr (OtherInstance 0))"
  using generate_model_returns_instance
    [of "\<lambda>p. Inr [''Thing'' \<mapsto> ClassAttr (\<lambda>kw. Inr (OtherInstance (0::nat)))]" "''m.py''"
        "[''Thing'' \<mapsto> ClassAttr (\<lambda>kw. Inr (OtherInstance (0::nat)))]" "''Thing''"
        "\<lambda>kw. Inr (OtherInstance (0::nat))" "[] :: unit kwargs" "OtherInstance 0"]
  by (simp add: isinstance_BaseModel_def)

subsection \<open>The default decoding\<close>

text \<open>
  Claim C5. \<^verbatim>\<open>BaseModel(top_probs=2).decode_prob([[0.1, 0.7, 0.2]])\<close>, the three
  floats being the doubles the literals denote, warns that there is no class
  decoder and returns the entries of classes 1 and 2, in this order, with the
  probabilities \<^verbatim>\<open>'0.700'\<close> and \<^verbatim>\<open>'0.200'\<close>.
\<close>

theorem decode_prob_scenario:
  "BaseModel_init (Some 2) [] = Inr (plain_model 2 :: unit BaseModel)
   \<and> decode_prob (plain_model 2 :: unit BaseModel)
       [[Finite double_0_1, Finite double_0_7, Finite double_0_2]]
     = ([''Evaluating without class decoder''],
        Inr [[\<lparr>index = 1, name = ''1'', prob = ''0.700''\<rparr>,
              \<lparr>index = 2, name = ''2'', prob = ''0.200''\<rparr>]])"
proof -
  have "decode_prob (plain_model 2 :: unit BaseModel)
       [[Finite double_0_1, Finite double_0_7, Finite double_0_2]]
     = ([''Evaluating without class decoder''],
        Inr [[\<lparr>index = 1, name = ''1'', prob = ''0.700''\<rparr>,
              \<lparr>index = 2, name = ''2'', prob = ''0.200''\<rparr>]])"
    by code_simp
  then show ?thesis by (simp add: BaseModel_init_def plain_model_def)
qed

lemma build_entries_enumerate:
  "build_entries i row es =
     es @ map (\<lambda>(j, p). \<lparr>index = j, name = str_nat j, prob = p\<rparr>) (enumerate i row)"
  by (induction row arbitrary: i es) simp_all

lemma build_entries_facts:
  "e \<in> set (build_entries 0 row []) \<Longrightarrow>
     index e < length row \<and> prob e = row ! index e \<and> name e = str_nat (index e)"
  by (auto simp: build_entries_enumerate in_set_enumerate_eq)


lemma format_entries_map:
  "format_entries es =
     map (\<lambda>e. \<lparr>index = index e, name = name e, prob = format_float (prob e)\<rparr>) es"
  by (induction es) simp_all

lemma decode_rows_map: "decode_rows k rows acc = acc @ map (decode_row k) rows"
  by (induction rows arbitrary: acc) simp_all

lemma default_decode_map: "default_decode k arr = map (decode_row k) arr"
  by (simp add: default_decode_def decode_rows_map)

lemma set_slice_to: "set (slice_to k xs) \<subseteq> set xs"
  by (auto simp: slice_to_def dest: in_set_takeD)

lemma length_ranked_entries:
  "0 \<le> k \<Longrightarrow> length (ranked_entries k row) = min (nat k) (length row)"
  by (simp add: ranked_entries_def slice_to_def length_sorted_py build_entries_enumerate)

lemma ranked_entries_facts:
  "e \<in> set (ranked_entries k row) \<Longrightarrow>
     index e < length row \<and> prob e = row ! index e \<and> name e = str_nat (index e)"
  using set_slice_to [of k "sorted_py prob True (build_entries 0 row [])"]
  by (intro build_entries_facts) (auto simp: ranked_entries_def set_sorted_py)




lemma length_decode_row: "length (decode_row k row) = length (ranked_entries k row)"
  by (simp add: decode_row_def format_entries_map)


lemma decode_row_entry:
  assumes "e \<in> set (decode_row k row)"
  shows "index e < length row \<and> name e = str_nat (index e)
       \<and> prob e = format_float (row ! index e)"
proof -
  from assms obtain r where r: "r \<in> set (ranked_entries k row)"
    and e: "e = \<lparr>index = index r, name = name r, prob = format_float (prob r)\<rparr>"
    by (auto simp: decode_row_def format_entries_map)
  from ranked_entries_facts [OF r] show ?thesis by (simp add: e)
qed

lemma below_ten:
  "(d::nat) < 10 \<Longrightarrow> d = 0 \<or> d = 1 \<or> d = 2 \<or> d = 3 \<or> d = 4 \<or> d = 5 \<or> d = 6 \<or> d = 7 \<or> d = 8 \<or> d = 9"
  by arith

lemma digit_char_is_digit: "is_digit (digit_char d)"
  using below_ten [of "d mod 10"] by (auto simp: digit_char_def is_digit_def)

lemma digit_value_digit_char: "digit_value (digit_char d) = d mod 10"
  using below_ten [of "d mod 10"] by (auto simp: digit_char_def digit_value_def)

lemma digit_char_not_point: "digit_char d \<noteq> CHR ''.''"
  using digit_char_is_digit [of d] by (auto simp: is_digit_def)

lemma str_nat_nonempty: "str_nat n \<noteq> []"
  by (subst str_nat.simps) simp

lemma nat_of_digits_snoc: "nat_of_digits (ds @ [c]) = 10 * nat_of_digits ds + digit_value c"
  by (simp add: nat_of_digits_def)

lemma takeWhile_digits:
  "list_all is_digit ds \<Longrightarrow> takeWhile (\<lambda>c. c \<noteq> CHR ''.'') (ds @ CHR ''.'' # fs) = ds"
  by (induction ds) (auto simp: is_digit_def)

lemma dropWhile_digits:
  "list_all is_digit ds \<Longrightarrow> dropWhile (\<lambda>c. c \<noteq> CHR ''.'') (ds @ CHR ''.'' # fs) = CHR ''.'' # fs"
  by (induction ds) (auto simp: is_digit_def)

lemma round_half_even_cases:
  obtains f d where "x = of_int f + d" "0 \<le> d" "d < 1"
    "round_half_even x = (if d < 1/2 then f else if 1/2 < d then f + 1 else if even f then f else f + 1)"
proof -
  define f where "f = \<lfloor>x\<rfloor>"
  define d where "d = x - of_int f"
  have "0 \<le> d" "d < 1" unfolding d_def f_def by linarith+
  moreover have "x = of_int f + d" by (simp add: d_def)
  moreover have "round_half_even x = (if d < 1/2 then f else if 1/2 < d then f + 1 else if even f then f else f + 1)"
    by (simp add: round_half_even_def Let_def f_def d_def)
  ultimately show ?thesis using that by blast
qed

lemma round_half_even_near: "\<bar>of_int (round_half_even x) - x\<bar> \<le> 1/2"
proof -
  obtain f d where *: "x = of_int f + d" "0 \<le> d" "d < 1"
    "round_half_even x = (if d < 1/2 then f else if 1/2 < d then f + 1 else if even f then f else f + 1)"
    by (rule round_half_even_cases)
  show ?thesis using * by (auto simp: abs_if split: if_splits)
qed

lemma round_half_even_tie:
  assumes "\<bar>of_int (round_half_even x) - x\<bar> = 1/2"
  shows "even (round_half_even x)"
proof -
  obtain f d where *: "x = of_int f + d" "0 \<le> d" "d < 1"
    "round_half_even x = (if d < 1/2 then f else if 1/2 < d then f + 1 else if even f then f else f + 1)"
    by (rule round_half_even_cases)
  show ?thesis using assms * by (auto simp: abs_if split: if_splits)
qed

lemma round_half_even_nonneg: "0 \<le> x \<Longrightarrow> 0 \<le> round_half_even x"
  by (auto simp: round_half_even_def Let_def)


lemma str_nat_digits: "list_all is_digit (str_nat n)"
proof (induction n rule: str_nat.induct)
  case (1 n)
  show ?case
  proof (cases "n < 10")
    case True
    then show ?thesis by (subst str_nat.simps) (simp add: digit_char_is_digit)
  next
    case False
    with 1 have "list_all is_digit (str_nat (n div 10))" by simp
    then show ?thesis using False by (subst str_nat.simps) (simp add: digit_char_is_digit)
  qed
qed

lemma nat_of_digits_str_nat: "nat_of_digits (str_nat n) = n"
proof (induction n rule: str_nat.induct)
  case (1 n)
  show ?case
  proof (cases "n < 10")
    case True
    then show ?thesis
      by (subst str_nat.simps) (simp add: nat_of_digits_def digit_value_digit_char)
  next
    case False
    then have "nat_of_digits (str_nat (n div 10)) = n div 10" using 1 by simp
    then show ?thesis using False
      by (subst str_nat.simps) (simp add: nat_of_digits_snoc digit_value_digit_char)
  qed
qed

lemma nat_of_three_digits:
  "nat_of_digits [digit_char (n div 100), digit_char (n div 10), digit_char n] = n mod 1000"
proof -
  have a: "n mod 1000 = 100 * (n div 100 mod 10) + n mod 100"
    using mod_mult2_eq [of n 100 10] by simp
  have b: "n mod 100 = 10 * (n div 10 mod 10) + n mod 10"
    using mod_mult2_eq [of n 10 10] by simp
  have "nat_of_digits [digit_char (n div 100), digit_char (n div 10), digit_char n]
        = 100 * (n div 100 mod 10) + 10 * (n div 10 mod 10) + n mod 10"
    by (simp add: nat_of_digits_def digit_value_digit_char)
  then show ?thesis using a b by simp
qed

lemma format3f_parts:
  "format3f x = (if x < 0 then ''-'' else '''') @ str_nat (thousandths x div 1000) @ CHR ''.'' #
     [digit_char (thousandths x div 100), digit_char (thousandths x div 10), digit_char (thousandths x)]"
  by (simp add: format3f_def Let_def thousandths_def)

lemma fraction_digits_format3f:
  "fraction_digits (format3f x) =
     [digit_char (thousandths x div 100), digit_char (thousandths x div 10), digit_char (thousandths x)]"
  by (simp add: format3f_parts fraction_digits_def dropWhile_digits str_nat_digits)

lemma hd_str_nat_not_minus: "hd (str_nat m) \<noteq> CHR ''-''"
proof -
  have "is_digit (hd (str_nat m))"
    using str_nat_digits [of m] str_nat_nonempty [of m] by (cases "str_nat m") simp_all
  then show ?thesis by (auto simp: is_digit_def)
qed

lemma split_thousand: "rat_of_nat (n div 1000) + rat_of_nat (n mod 1000) / 1000 = rat_of_nat n / 1000"
proof -
  have e: "1000 * (n div 1000) + n mod 1000 = n" by simp
  have "rat_of_nat n = rat_of_nat (1000 * (n div 1000) + n mod 1000)" by (simp only: e)
  also have "\<dots> = 1000 * rat_of_nat (n div 1000) + rat_of_nat (n mod 1000)"
    by (simp only: of_nat_add of_nat_mult of_nat_numeral)
  finally have f: "rat_of_nat n = 1000 * rat_of_nat (n div 1000) + rat_of_nat (n mod 1000)" .
  show ?thesis by (subst f) (simp add: add_divide_distrib)
qed

lemma decimal_value_format3f:
  "decimal_value (format3f x) = Some ((if x < 0 then - 1 else 1) * (rat_of_nat (thousandths x) / 1000))"
proof -
  let ?ds = "str_nat (thousandths x div 1000)"
  let ?fs = "[digit_char (thousandths x div 100), digit_char (thousandths x div 10), digit_char (thousandths x)]"
  have neg: "(format3f x \<noteq> [] \<and> hd (format3f x) = CHR ''-'') = (x < 0)"
    using hd_str_nat_not_minus [of "thousandths x div 1000"] str_nat_nonempty [of "thousandths x div 1000"]
    by (simp add: format3f_parts hd_append)
  have body: "(if x < 0 then tl (format3f x) else format3f x) = ?ds @ CHR ''.'' # ?fs"
    by (simp add: format3f_parts)
  have ip: "takeWhile (\<lambda>c. c \<noteq> CHR ''.'') (?ds @ CHR ''.'' # ?fs) = ?ds"
    by (rule takeWhile_digits) (rule str_nat_digits)
  have fp: "fraction_digits (?ds @ CHR ''.'' # ?fs) = ?fs"
    by (simp add: fraction_digits_def dropWhile_digits str_nat_digits)
  have "decimal_value (format3f x) =
      Some ((if x < 0 then - 1 else 1)
        * (rat_of_nat (nat_of_digits ?ds) + rat_of_nat (nat_of_digits ?fs) / 10 ^ length ?fs))"
    unfolding decimal_value_def neg Let_def body ip fp
    by (simp add: str_nat_nonempty str_nat_digits digit_char_is_digit)
  also have "rat_of_nat (nat_of_digits ?ds) + rat_of_nat (nat_of_digits ?fs) / 10 ^ length ?fs
      = rat_of_nat (thousandths x) / 1000"
    by (simp add: nat_of_digits_str_nat nat_of_three_digits split_thousand)
  finally show ?thesis .
qed

lemma format3f_rounds:
  "\<exists>z::int. decimal_value (format3f x) = Some (of_int z / 1000)
      \<and> \<bar>of_int z / 1000 - x\<bar> \<le> 1 / 2000
      \<and> (\<bar>of_int z / 1000 - x\<bar> = 1 / 2000 \<longrightarrow> even z)"
proof -
  define r where "r = round_half_even (\<bar>x\<bar> * 1000)"
  define z where "z = (if x < 0 then - r else r)"
  have r0: "0 \<le> r" unfolding r_def by (rule round_half_even_nonneg) simp
  then have t: "rat_of_nat (thousandths x) = of_int r" by (simp add: thousandths_def r_def)
  have v: "decimal_value (format3f x) = Some (of_int z / 1000)"
    by (simp add: decimal_value_format3f t z_def)
  have near: "\<bar>of_int r - \<bar>x\<bar> * 1000\<bar> \<le> 1/2" unfolding r_def by (rule round_half_even_near)
  have d: "\<bar>of_int z / 1000 - x\<bar> = \<bar>of_int r - \<bar>x\<bar> * 1000\<bar> / 1000"
    by (auto simp: abs_if field_simps z_def)
  have le: "\<bar>of_int z / 1000 - x\<bar> \<le> 1 / 2000" using near unfolding d by simp
  have ev: "even z" if "\<bar>of_int z / 1000 - x\<bar> = 1 / 2000"
  proof -
    from that have "\<bar>of_int r - \<bar>x\<bar> * 1000\<bar> = 1/2" unfolding d by simp
    then have "even r" unfolding r_def by (rule round_half_even_tie)
    then show ?thesis by (simp add: z_def)
  qed
  show ?thesis using v le ev by blast
qed


lemma format3f_three_digits:
  "length (fraction_digits (format3f x)) = 3 \<and> list_all is_digit (fraction_digits (format3f x))"
  by (simp add: fraction_digits_format3f digit_char_is_digit)

lemma format_float_three_digits:
  assumes "is_finite a"
  shows "length (fraction_digits (format_float a)) = 3
       \<and> list_all is_digit (fraction_digits (format_float a))"
proof (cases a)
  case (Finite x)
  then show ?thesis using format3f_three_digits [of x] by (simp add: format_float_def)
next
  case NegZero
  then show ?thesis by (simp add: format_float_def fraction_digits_def is_digit_def)
qed (insert assms, simp_all add: is_finite_def)

lemma decimal_value_negative_zero: "decimal_value ''-0.000'' = Some 0"
  by code_simp

lemma format_float_rounds:
  assumes "is_finite a"
  shows "\<exists>z::int. decimal_value (format_float a) = Some (of_int z / 1000)
      \<and> \<bar>of_int z / 1000 - float_value a\<bar> \<le> 1 / 2000
      \<and> (\<bar>of_int z / 1000 - float_value a\<bar> = 1 / 2000 \<longrightarrow> even z)"
proof (cases a)
  case (Finite x)
  then show ?thesis using format3f_rounds [of x] by (simp add: format_float_def float_value_def)
next
  case NegZero
  have "decimal_value (format_float NegZero) = Some (of_int 0 / 1000)
      \<and> \<bar>of_int 0 / 1000 - float_value NegZero\<bar> \<le> 1 / 2000
      \<and> (\<bar>of_int 0 / 1000 - float_value NegZero\<bar> = 1 / 2000 \<longrightarrow> even (0::int))"
    by (simp add: format_float_def float_value_def decimal_value_negative_zero)
  then show ?thesis unfolding NegZero by blast
qed (insert assms, simp_all add: is_finite_def)

text \<open>
  Claim C2. For a positive \<open>k\<close>, an instance built with \<^verbatim>\<open>top_probs=k\<close> and no
  class decoder decodes by the default algorithm: the result has one list per
  row of the input, the list at position \<open>n\<close> is the decoding of row \<open>n\<close>, and
  its length is the smaller of \<open>k\<close> and the number of classes of that row.
\<close>

theorem default_decode_row_lengths:
  assumes "0 < k" and "BaseModel_init (Some k) kwargs = Inr m"
    and "''prob_decoder'' \<notin> fst ` set kwargs"
  shows "decode_prob m output_arr
           = ([''Evaluating without class decoder''], Inr (default_decode k output_arr))
       \<and> length (default_decode k output_arr) = length output_arr
       \<and> (\<forall>n<length output_arr.
             default_decode k output_arr ! n = decode_row k (output_arr ! n)
             \<and> int (length (default_decode k output_arr ! n))
                 = min k (int (length (output_arr ! n))))"
proof -
  have "attrs m ''prob_decoder'' = None"
    using assms(2,3) by (rule init_Inr)
  moreover have "top_probs m = k" using init_Inr(1) [OF assms(2)] by simp
  ultimately have "decode_prob m output_arr
           = ([''Evaluating without class decoder''], Inr (default_decode k output_arr))"
    by (simp add: decode_prob_fallback)
  moreover have "int (length (decode_row k row)) = min k (int (length row))" for row
    using assms(1) by (simp add: length_decode_row length_ranked_entries)
  ultimately show ?thesis by (simp add: default_decode_map)
qed

theorem default_decode_row_lengths_witness:
  "(0::int) < 2 \<and> BaseModel_init (Some 2) [] = Inr (plain_model 2 :: unit BaseModel)
   \<and> ''prob_decoder'' \<notin> fst ` set ([] :: unit kwargs)
   \<and> decode_prob (plain_model 2 :: unit BaseModel)
        [[Finite (1/10), NaN, Finite (1/5)], [Finite 1]]
       = ([''Evaluating without class decoder''],
          Inr (default_decode 2 [[Finite (1/10), NaN, Finite (1/5)], [Finite 1]]))
   \<and> length (default_decode 2 [[Finite (1/10), NaN, Finite (1/5)], [Finite 1]]) = 2
   \<and> int (length (default_decode 2 [[Finite (1/10), NaN, Finite (1/5)], [Finite 1]] ! 0)) = 2
   \<and> int (length (default_decode 2 [[Finite (1/10), NaN, Finite (1/5)], [Finite 1]] ! 1)) = 1"
proof -
  let ?arr = "[[Finite (1/10), NaN, Finite (1/5)], [Finite 1]] :: prob_array"
  have h: "(0::int) < 2" "BaseModel_init (Some 2) [] = Inr (plain_model 2 :: unit BaseModel)"
    "''prob_decoder'' \<notin> fst ` set ([] :: unit kwargs)"
    by (simp_all add: BaseModel_init_def plain_model_def)
  note t = default_decode_row_lengths [OF h, of ?arr]
  from t have a: "\<forall>n<length ?arr.
      int (length (default_decode 2 ?arr ! n)) = min 2 (int (length (?arr ! n)))"
    by blast
  have "int (length (default_decode 2 ?arr ! 0)) = 2" using a [rule_format, of 0] by simp
  moreover have "int (length (default_decode 2 ?arr ! 1)) = 1" using a [rule_format, of 1] by simp
  ultimately show ?thesis using t h by simp
qed




text \<open>
  Claim C4, as the code has it. The \<^verbatim>\<open>'prob'\<close> string of an entry of a default
  decoding whose class has a finite probability in the input row has exactly
  three characters after its decimal point, all digits, and denotes a multiple
  of 1/1000 nearest to that probability (of two equally near ones, the even
  multiple).
\<close>

theorem default_decode_prob_three_decimals:
  assumes "attrs m ''prob_decoder'' = None"
    and "decode_prob m output_arr = (ws, Inr res)"
    and "n < length output_arr" and "e \<in> set (res ! n)"
    and "is_finite (output_arr ! n ! index e)"
  shows "index e < length (output_arr ! n)
       \<and> length (fraction_digits (prob e)) = 3
       \<and> list_all is_digit (fraction_digits (prob e))
       \<and> (\<exists>z::int. decimal_value (prob e) = Some (of_int z / 1000)
             \<and> \<bar>of_int z / 1000 - float_value (output_arr ! n ! index e)\<bar> \<le> 1 / 2000
             \<and> (\<bar>of_int z / 1000 - float_value (output_arr ! n ! index e)\<bar> = 1 / 2000
                  \<longrightarrow> even z))"
proof -
  have "res = default_decode (top_probs m) output_arr"
    using assms(1,2) by (simp add: decode_prob_fallback)
  then have "res ! n = decode_row (top_probs m) (output_arr ! n)"
    using assms(3) by (simp add: default_decode_map)
  then have e: "index e < length (output_arr ! n)"
    "prob e = format_float (output_arr ! n ! index e)"
    using assms(4) decode_row_entry [of e "top_probs m" "output_arr ! n"] by simp_all
  show ?thesis
    unfolding e(2)
    using e(1) format_float_three_digits [OF assms(5)] format_float_rounds [OF assms(5)]
    by blast
qed

theorem default_decode_prob_three_decimals_witness:
  "attrs (plain_model 2 :: unit BaseModel) ''prob_decoder'' = None
   \<and> decode_prob (plain_model 2 :: unit BaseModel)
        [[Finite double_0_1, Finite double_0_7, Finite double_0_2]]
       = ([''Evaluating without class decoder''],
          Inr [[\<lparr>index = 1, name = ''1'', prob = ''0.700''\<rparr>,
                \<lparr>index = 2, name = ''2'', prob = ''0.200''\<rparr>]])
   \<and> is_finite (Finite double_0_7)
   \<and> length (fraction_digits ''0.700'') = 3
   \<and> (\<exists>z::int. decimal_value ''0.700'' = Some (of_int z / 1000)
         \<and> \<bar>of_int z / 1000 - double_0_7\<bar> \<le> 1 / 2000)"
proof -
  let ?m = "plain_model 2 :: unit BaseModel"
  let ?arr = "[[Finite double_0_1, Finite double_0_7, Finite double_0_2]] :: prob_array"
  let ?res = "[[\<lparr>index = 1, name = ''1'', prob = ''0.700''\<rparr>,
                \<lparr>index = 2, name = ''2'', prob = ''0.200''\<rparr>]]"
  have a: "attrs ?m ''prob_decoder'' = None" by (simp add: plain_model_def)
  have d: "decode_prob ?m ?arr = ([''Evaluating without class decoder''], Inr ?res)"
    by code_simp
  have n: "(0::nat) < length ?arr" by simp
  have e: "\<lparr>index = 1, name = ''1'', prob = ''0.700''\<rparr> \<in> set (?res ! 0)" by simp
  have f: "is_finite (?arr ! 0 ! index \<lparr>index = 1, name = ''1'', prob = ''0.700''\<rparr>)"
    by (simp add: is_finite_def)
  show ?thesis
    using default_decode_prob_three_decimals [OF a d n e f] a d
    by (auto simp: is_finite_def float_value_def)
qed

text \<open>
  Claim C4 as stated fails on a not-a-number: on \<^verbatim>\<open>[[nan]]\<close> the one entry of
  the default decoding has the \<^verbatim>\<open>'prob'\<close> string \<^verbatim>\<open>'nan'\<close>, which has no
  decimal point and no digit.
\<close>

theorem three_decimals_counterexample:
  "decode_prob (plain_model 5 :: unit BaseModel) [[NaN]]
     = ([''Evaluating without class decoder''],
        Inr [[\<lparr>index = 0, name = ''0'', prob = ''nan''\<rparr>]])
   \<and> fraction_digits ''nan'' = []
   \<and> decimal_value ''nan'' = None"
  by code_simp

subsection \<open>The default decoding on a store\<close>

lemma list_at_nth: "a < length h \<Longrightarrow> h ! a = HList vs \<Longrightarrow> list_at h a = Some vs"
  by (simp add: list_at_def)

lemma dict_at_nth: "a < length h \<Longrightarrow> h ! a = HDict kvs \<Longrightarrow> dict_at h a = Some kvs"
  by (simp add: dict_at_def)

lemma build_entries_store_shape:
  "ea < length h \<Longrightarrow> h ! ea = HList es \<Longrightarrow>
   build_entries_store h ea i ps =
     Some (h[ea := HList (es @ map (\<lambda>j. HRef (length h + j)) [0..<length ps])]
           @ map (\<lambda>j. entry_dict (i + j) (ps ! j)) [0..<length ps])"
proof (induction ps arbitrary: h es i)
  case Nil
  then show ?case by (simp add: list_update_same_conv [THEN iffD2])
next
  case (Cons p ps)
  let ?h2 = "h[ea := HList (es @ [HRef (length h)])] @ [entry_dict i p]"
  have la: "list_append (h @ [entry_dict i p]) ea (HRef (length h)) = Some ?h2"
    using Cons.prems by (simp add: list_append_def list_at_def nth_append list_update_append1)
  have ea2: "ea < length ?h2" "?h2 ! ea = HList (es @ [HRef (length h)])"
    using Cons.prems by (simp_all add: nth_append)
  have "build_entries_store h ea i (p # ps) = build_entries_store ?h2 ea (Suc i) ps"
    by (simp add: alloc_def la)
  also have "\<dots> = Some (?h2[ea := HList ((es @ [HRef (length h)])
                          @ map (\<lambda>j. HRef (length ?h2 + j)) [0..<length ps])]
           @ map (\<lambda>j. entry_dict (Suc i + j) (ps ! j)) [0..<length ps])"
    by (rule Cons.IH [OF ea2])
  also have "\<dots> = Some (h[ea := HList (es @ map (\<lambda>j. HRef (length h + j)) [0..<length (p # ps)])]
           @ map (\<lambda>j. entry_dict (i + j) ((p # ps) ! j)) [0..<length (p # ps)])"
    using Cons.prems(1) by (simp add: map_upt_Suc list_update_append1 del: upt_Suc)
  finally show ?case .
qed

lemma keyed_shape:
  assumes "\<forall>j\<in>set js. b + j < length h \<and> h ! (b + j) = entry_dict j (HFloat (row ! j))"
  shows "keyed h (map (\<lambda>j. HRef (b + j)) js) = Some (map (\<lambda>j. (row ! j, HRef (b + j))) js)"
  using assms
  by (induction js) (simp_all add: float_item_def dict_at_def entry_dict_def)

lemma slice_to_map: "slice_to k (map g xs) = map g (slice_to k xs)"
  by (simp add: slice_to_def take_map)

lemma update_mid:
  "j < m \<Longrightarrow> (A @ map f [0..<m] @ B)[length A + j := y] = A @ map (f(j := y)) [0..<m] @ B"
  by (rule nth_equalityI) (auto simp: nth_append nth_list_update)

lemma format_entries_store_shape:
  assumes "distinct js" and "set js \<subseteq> {..<length row}" and "set js \<inter> D = {}"
  shows "format_entries_store
           (A @ map (\<lambda>j. entry_dict j (if j \<in> D then HStr (format_float (row ! j)) else HFloat (row ! j)))
                  [0..<length row] @ B)
           (map (\<lambda>j. HRef (length A + j)) js)
         = Some (A @ map (\<lambda>j. entry_dict j (if j \<in> D \<union> set js then HStr (format_float (row ! j))
                                              else HFloat (row ! j)))
                       [0..<length row] @ B)"
  using assms
proof (induction js arbitrary: D)
  case Nil
  then show ?case by simp
next
  case (Cons j js)
  let ?cell = "\<lambda>D j. entry_dict j (if j \<in> D then HStr (format_float (row ! j)) else HFloat (row ! j))"
  let ?H = "\<lambda>D. A @ map (?cell D) [0..<length row] @ B"
  have j: "j < length row" "j \<notin> D" "j \<notin> set js" using Cons.prems by auto
  have at: "length A + j < length (?H D)" "?H D ! (length A + j) = entry_dict j (HFloat (row ! j))"
    using j by (simp_all add: nth_append)
  have fi: "float_item (?H D) (HRef (length A + j)) ''prob'' = Some (row ! j)"
    using at by (simp add: float_item_def dict_at_def entry_dict_def)
  have "map ((?cell D)(j := entry_dict j (HStr (format_float (row ! j))))) [0..<length row]
      = map (?cell (insert j D)) [0..<length row]"
    by (rule map_cong) auto
  then have upd: "(?H D)[length A + j := entry_dict j (HStr (format_float (row ! j)))] = ?H (insert j D)"
    using update_mid [of j "length row" A "?cell D" B] j(1) by simp
  have ds: "dict_set (?H D) (length A + j) ''prob'' (HStr (format_float (row ! j))) = Some (?H (insert j D))"
    using at upd by (simp add: dict_set_def dict_at_def entry_dict_def)
  have "format_entries_store (?H D) (map (\<lambda>j. HRef (length A + j)) (j # js))
      = format_entries_store (?H (insert j D)) (map (\<lambda>j. HRef (length A + j)) js)"
    using fi ds by simp
  also have "\<dots> = Some (?H (insert j D \<union> set js))"
    using Cons.prems j by (intro Cons.IH) auto
  finally show ?case by simp
qed

lemma ranked_indices_facts:
  "distinct (ranked_indices k row)" "set (ranked_indices k row) \<subseteq> {..<length row}"
proof -
  show "distinct (ranked_indices k row)"
    by (simp add: ranked_indices_def slice_to_def distinct_sorted_py)
  have "set (ranked_indices k row) \<subseteq> set (sorted_py (\<lambda>j. row ! j) True [0..<length row])"
    by (auto simp: ranked_indices_def slice_to_def dest: in_set_takeD)
  then show "set (ranked_indices k row) \<subseteq> {..<length row}"
    by (auto simp: set_sorted_py)
qed

lemma length_row_cells: "length (row_cells l k row) = length row + 3"
  by (simp add: row_cells_def)

lemma decode_row_store_shape:
  assumes "results < length h" and "h ! results = HList rs"
  shows "decode_row_store k h results (map HFloat row) =
     Some (h[results := HList (rs @ [HRef (length h + length row + 2)])]
           @ row_cells (length h) k row)"
proof -
  let ?l = "length h" and ?m = "length row"
  let ?ref = "\<lambda>j. HRef (Suc ?l + j)"
  let ?S = "sorted_py (\<lambda>j. row ! j) True [0..<?m]"
  let ?R = "ranked_indices k row"
  let ?cell = "\<lambda>D j. entry_dict j (if j \<in> D then HStr (format_float (row ! j)) else HFloat (row ! j))"
  define A where "A = h @ [HList (map ?ref [0..<?m])]"
  define h2 where "h2 = A @ map (?cell {}) [0..<?m]"
  define h3 where "h3 = h2 @ [HList (map ?ref ?S)]"
  define h4 where "h4 = h3 @ [HList (map ?ref ?R)]"
  have len: "length A = Suc ?l" "length h2 = Suc ?l + ?m" "length h3 = ?l + ?m + 2"
    by (simp_all add: A_def h2_def h3_def)
  have b0: "build_entries_store (h @ [HList []]) ?l 0 (map HFloat row) =
      Some ((h @ [HList []])[?l := HList ([] @ map (\<lambda>j. HRef (length (h @ [HList []]) + j))
                                             [0..<length (map HFloat row)])]
            @ map (\<lambda>j. entry_dict (0 + j) (map HFloat row ! j)) [0..<length (map HFloat row)])"
    by (rule build_entries_store_shape) simp_all
  have "map (\<lambda>j. entry_dict (0 + j) (map HFloat row ! j)) [0..<?m] = map (?cell {}) [0..<?m]"
    by (rule map_cong) simp_all
  then have build: "build_entries_store (h @ [HList []]) ?l 0 (map HFloat row) = Some h2"
    using b0 by (simp add: h2_def A_def)
  have l2: "list_at h2 ?l = Some (map ?ref [0..<?m])"
    by (simp add: list_at_def nth_append h2_def A_def)
  have k2: "keyed h2 (map ?ref [0..<?m]) = Some (map (\<lambda>j. (row ! j, ?ref j)) [0..<?m])"
    by (rule keyed_shape) (simp add: nth_append h2_def A_def)
  have s2: "map snd (sorted_py fst True (map (\<lambda>j. (row ! j, ?ref j)) [0..<?m])) = map ?ref ?S"
    by (simp add: sorted_py_map comp_def)
  have sorted: "sorted_store h2 ?l = Some (h3, Suc ?l + ?m)"
    using l2 k2 s2 len by (simp add: sorted_store_def alloc_def h3_def)
  have l3: "list_at h3 (Suc ?l + ?m) = Some (map ?ref ?S)"
    using len by (simp add: list_at_def h3_def nth_append)
  have slice: "slice_store k h3 (Suc ?l + ?m) = Some (h4, ?l + ?m + 2)"
    using l3 len by (simp add: slice_store_def alloc_def slice_to_map ranked_indices_def h4_def)
  have l4: "list_at h4 (?l + ?m + 2) = Some (map ?ref ?R)"
    using len by (simp add: list_at_def h4_def nth_append)
  have f0: "format_entries_store (A @ map (?cell {}) [0..<?m] @ [HList (map ?ref ?S), HList (map ?ref ?R)])
        (map (\<lambda>j. HRef (length A + j)) ?R)
      = Some (A @ map (?cell ({} \<union> set ?R)) [0..<?m] @ [HList (map ?ref ?S), HList (map ?ref ?R)])"
    by (rule format_entries_store_shape) (simp_all add: ranked_indices_facts)
  have h4': "h4 = A @ map (?cell {}) [0..<?m] @ [HList (map ?ref ?S), HList (map ?ref ?R)]"
    by (simp add: h4_def h3_def h2_def)
  have rc: "A @ map (?cell ({} \<union> set ?R)) [0..<?m] @ [HList (map ?ref ?S), HList (map ?ref ?R)]
      = h @ row_cells ?l k row"
    by (simp add: row_cells_def A_def)
  have fmt: "format_entries_store h4 (map ?ref ?R) = Some (h @ row_cells ?l k row)"
    using f0 rc len unfolding h4' [symmetric] by simp
  have app: "list_append (h @ row_cells ?l k row) results (HRef (?l + ?m + 2))
      = Some (h[results := HList (rs @ [HRef (?l + ?m + 2)])] @ row_cells ?l k row)"
    using assms by (simp add: list_append_def list_at_def nth_append list_update_append1)
  show ?thesis
    using build sorted slice l4 fmt app
    by (simp add: decode_row_store_def alloc_def)
qed

lemma decode_rows_store_shape:
  assumes "list_all2 (\<lambda>r row. r < length h0 \<and> h0 ! r = HList (map HFloat row)) ras arr"
  shows "decode_rows_store k (h0 @ HList rs # cs) (length h0) (map HRef ras)
       = Some (h0 @ HList (rs @ new_refs (Suc (length h0 + length cs)) arr)
                # cs @ all_cells (Suc (length h0 + length cs)) k arr)"
  using assms
proof (induction ras arr arbitrary: rs cs rule: list_all2_induct)
  case Nil
  then show ?case by simp
next
  case (Cons r ras row arr)
  let ?H = "h0 @ HList rs # cs"
  let ?l = "Suc (length h0 + length cs)"
  let ?rs' = "rs @ [HRef (?l + length row + 2)]"
  let ?cs' = "cs @ row_cells ?l k row"
  have la: "list_at ?H r = Some (map HFloat row)"
    using Cons.hyps(1) by (simp add: list_at_def nth_append)
  have "decode_row_store k ?H (length h0) (map HFloat row)
      = Some (?H[length h0 := HList (rs @ [HRef (length ?H + length row + 2)])]
              @ row_cells (length ?H) k row)"
    by (rule decode_row_store_shape) simp_all
  then have step: "decode_row_store k ?H (length h0) (map HFloat row) = Some (h0 @ HList ?rs' # ?cs')"
    by simp
  have "decode_rows_store k ?H (length h0) (map HRef (r # ras))
      = decode_rows_store k (h0 @ HList ?rs' # ?cs') (length h0) (map HRef ras)"
    using la step by simp
  also have "\<dots> = Some (h0 @ HList (?rs' @ new_refs (Suc (length h0 + length ?cs')) arr)
                # ?cs' @ all_cells (Suc (length h0 + length ?cs')) k arr)"
    by (rule Cons.IH)
  also have "Suc (length h0 + length ?cs') = ?l + length row + 3"
    by (simp add: length_row_cells)
  finally show ?case by simp
qed

lemma those_map_Some:
  "(\<And>x. x \<in> set xs \<Longrightarrow> f x = Some (g x)) \<Longrightarrow> those (map f xs) = Some (map g xs)"
  by (induction xs) simp_all

lemma build_entries_indices:
  "build_entries 0 row [] = map (\<lambda>j. \<lparr>index = j, name = str_nat j, prob = row ! j\<rparr>) [0..<length row]"
  by (rule nth_equalityI) (simp_all add: build_entries_enumerate nth_enumerate_eq)

lemma decode_row_indices:
  "decode_row k row =
     map (\<lambda>j. \<lparr>index = j, name = str_nat j, prob = format_float (row ! j)\<rparr>) (ranked_indices k row)"
  by (simp add: decode_row_def ranked_entries_def ranked_indices_def build_entries_indices
      sorted_py_map slice_to_map format_entries_map comp_def)

lemma row_cells_top:
  "(P @ row_cells (length P) k row @ Q) ! (length P + length row + 2)
     = HList (map (\<lambda>j. HRef (Suc (length P) + j)) (ranked_indices k row))"
  by (simp add: row_cells_def nth_append)

lemma row_cells_dict:
  "j < length row \<Longrightarrow>
   (P @ row_cells (length P) k row @ Q) ! (Suc (length P) + j)
     = entry_dict j (if j \<in> set (ranked_indices k row)
                     then HStr (format_float (row ! j)) else HFloat (row ! j))"
  by (simp add: row_cells_def nth_append)

lemma read_row_cells:
  assumes "n \<le> length P"
  shows "read_row n (P @ row_cells (length P) k row @ Q) (HRef (length P + length row + 2))
       = Some (decode_row k row)"
proof -
  let ?H = "P @ row_cells (length P) k row @ Q"
  let ?R = "ranked_indices k row"
  have len: "length P + length row + 2 < length ?H" by (simp add: length_row_cells)
  have la: "list_at ?H (length P + length row + 2) = Some (map (\<lambda>j. HRef (Suc (length P) + j)) ?R)"
    using len row_cells_top [of P k row Q] by (simp add: list_at_def)
  have re: "read_entry n ?H (HRef (Suc (length P) + j))
      = Some \<lparr>index = j, name = str_nat j, prob = format_float (row ! j)\<rparr>" if "j \<in> set ?R" for j
  proof -
    have j: "j < length row" using that ranked_indices_facts(2) [of k row] by auto
    then have "Suc (length P) + j < length ?H" by (simp add: length_row_cells)
    moreover have "?H ! (Suc (length P) + j) = entry_dict j (HStr (format_float (row ! j)))"
      using row_cells_dict [OF j, of P k Q] that by simp
    ultimately show ?thesis
      using assms by (simp add: read_entry_def dict_at_def entry_dict_def)
  qed
  have "those (map (read_entry n ?H) (map (\<lambda>j. HRef (Suc (length P) + j)) ?R))
      = Some (map (\<lambda>j. \<lparr>index = j, name = str_nat j, prob = format_float (row ! j)\<rparr>) ?R)"
    unfolding map_map comp_def by (rule those_map_Some) (rule re)
  then show ?thesis
    using la assms by (simp add: read_row_def decode_row_indices)
qed

lemma read_all_cells:
  assumes "n \<le> length P"
  shows "those (map (read_row n (P @ all_cells (length P) k arr @ Q)) (new_refs (length P) arr))
       = Some (map (decode_row k) arr)"
  using assms
proof (induction arr arbitrary: P)
  case Nil
  then show ?case by simp
next
  case (Cons row arr)
  let ?P' = "P @ row_cells (length P) k row"
  have l': "length ?P' = length P + length row + 3" by (simp add: length_row_cells)
  have first: "read_row n (P @ row_cells (length P) k row
                 @ (all_cells (length P + length row + 3) k arr @ Q))
                 (HRef (length P + length row + 2)) = Some (decode_row k row)"
    using Cons.prems by (rule read_row_cells)
  have "those (map (read_row n (?P' @ all_cells (length ?P') k arr @ Q)) (new_refs (length ?P') arr))
      = Some (map (decode_row k) arr)"
    using Cons.prems by (intro Cons.IH) simp
  then have rest: "those (map (read_row n (?P' @ all_cells (length P + length row + 3) k arr @ Q))
                      (new_refs (length P + length row + 3) arr))
      = Some (map (decode_row k) arr)"
    unfolding l' .
  show ?case using first rest by simp
qed

text \<open>
  Claim C10. When the store holds a probability array at \<open>output_arr\<close>, the
  default decoding returns, every object that existed before the call is
  unchanged (so the array and its rows are what they were), and the result,
  with the lists of its rows and the dictionaries of its entries, is made of
  objects allocated during the call: the formatting wrote to those only. Read
  back, the result is the default decoding of the array.
\<close>

theorem decode_prob_store_frame:
  assumes "array_at h output_arr ras arr"
  shows "\<exists>h' results. decode_prob_store k h output_arr = Some (h', results)
       \<and> take (length h) h' = h
       \<and> array_at h' output_arr ras arr
       \<and> read_decoded (length h) h' results = Some (default_decode k arr)"
proof -
  let ?h' = "h @ HList (new_refs (Suc (length h)) arr) # all_cells (Suc (length h)) k arr"
  have a: "output_arr < length h" "h ! output_arr = HList (map HRef ras)"
    and rows: "list_all2 (\<lambda>r row. r < length h \<and> h ! r = HList (map HFloat row)) ras arr"
    using assms by (simp_all add: array_at_def)
  have la: "list_at (h @ [HList []]) output_arr = Some (map HRef ras)"
    using a by (simp add: list_at_def nth_append)
  have "decode_rows_store k (h @ HList [] # []) (length h) (map HRef ras)
      = Some (h @ HList ([] @ new_refs (Suc (length h + length ([] :: hobj list))) arr)
                # [] @ all_cells (Suc (length h + length ([] :: hobj list))) k arr)"
    using rows by (rule decode_rows_store_shape)
  then have run: "decode_prob_store k h output_arr = Some (?h', length h)"
    using la by (simp add: decode_prob_store_def alloc_def)
  have frame: "take (length h) ?h' = h" by simp
  have "list_all2 (\<lambda>r row. r < length ?h' \<and> ?h' ! r = HList (map HFloat row)) ras arr"
    using rows by (rule list_all2_mono) (simp add: nth_append)
  then have arr': "array_at ?h' output_arr ras arr"
    using a by (simp add: array_at_def nth_append)
  have "those (map (read_row (length h)
                  ((h @ [HList (new_refs (Suc (length h)) arr)])
                   @ all_cells (length (h @ [HList (new_refs (Suc (length h)) arr)])) k arr @ []))
               (new_refs (length (h @ [HList (new_refs (Suc (length h)) arr)])) arr))
      = Some (map (decode_row k) arr)"
    by (rule read_all_cells) simp
  then have read: "read_decoded (length h) ?h' (length h) = Some (default_decode k arr)"
    by (simp add: read_decoded_def list_at_def default_decode_map)
  show ?thesis using run frame arr' read by blast
qed

theorem decode_prob_store_frame_witness:
  "array_at example_store 2 [0, 1, 0] [[Finite (1/2), Finite (1/4), Finite (1/2)], [Finite 1],
        [Finite (1/2), Finite (1/4), Finite (1/2)]]
   \<and> (\<exists>h' results. decode_prob_store 2 example_store 2 = Some (h', results)
        \<and> take 3 h' = example_store
        \<and> read_decoded 3 h' results =
            Some [[\<lparr>index = 0, name = ''0'', prob = ''0.500''\<rparr>,
                   \<lparr>index = 2, name = ''2'', prob = ''0.500''\<rparr>],
                  [\<lparr>index = 0, name = ''0'', prob = ''1.000''\<rparr>],
                  [\<lparr>index = 0, name = ''0'', prob = ''0.500''\<rparr>,
                   \<lparr>index = 2, name = ''2'', prob = ''0.500''\<rparr>]])"
proof -
  have a: "array_at example_store 2 [0, 1, 0] [[Finite (1/2), Finite (1/4), Finite (1/2)], [Finite 1],
        [Finite (1/2), Finite (1/4), Finite (1/2)]]"
    by (simp add: array_at_def example_store_def)
  have l: "length example_store = 3" by (simp add: example_store_def)
  have d: "default_decode 2 [[Finite (1/2), Finite (1/4), Finite (1/2)], [Finite 1],
        [Finite (1/2), Finite (1/4), Finite (1/2)]] =
            [[\<lparr>index = 0, name = ''0'', prob = ''0.500''\<rparr>,
              \<lparr>index = 2, name = ''2'', prob = ''0.500''\<rparr>],
             [\<lparr>index = 0, name = ''0'', prob = ''1.000''\<rparr>],
             [\<lparr>index = 0, name = ''0'', prob = ''0.500''\<rparr>,
              \<lparr>index = 2, name = ''2'', prob = ''0.500''\<rparr>]]"
    by code_simp
  show ?thesis
    using decode_prob_store_frame [OF a, of 2] a unfolding l d by blast
qed

end
